theory Spec2Isabelle
  imports Main "HOL-Library.Word" "HOL-Library.Sublist"
begin

section \<open>Socket based RPC implementation (runtime/rpc/rpc_socket_impl.cc)\<close>

text \<open>
  A shallow embedding of \<^verbatim>\<open>rpc_socket_impl.cc\<close>: the socket-backed channel
  \<^verbatim>\<open>SockChannel\<close>, the client handshake \<^verbatim>\<open>RPCConnect\<close>, the client
  surface \<^verbatim>\<open>RPCClientConnect\<close>, the two \<^verbatim>\<open>RPCServerLoop\<close> entry points with
  the packed function \<^verbatim>\<open>rpc.ServerLoop\<close>, and \<^verbatim>\<open>rpc.ReturnException\<close>.

  C++ exceptions are values of the type \<open>error\<close>; every operation maps the state of
  the connection (\<open>world\<close>) to a result and the new state, and an exception ends the
  sequence it occurs in (\<open>andThen\<close>). The operations of \<^verbatim>\<open>support::TCPSocket\<close>
  and \<^verbatim>\<open>RPCEndpoint\<close> live in headers next to the file; they are modelled from the
  specification or passed as parameters, as noted at each definition.
\<close>

subsection \<open>Values, bytes and errors\<close>

text \<open>A \<^verbatim>\<open>std::string\<close> is a sequence of 8-bit characters, and so is every byte buffer.\<close>

type_synonym bytes = "char list"

text \<open>
  The exceptions of the file: \<^verbatim>\<open>LOG(FATAL)\<close> with its message, a failed
  \<^verbatim>\<open>ICHECK\<close>/\<^verbatim>\<open>ICHECK_EQ\<close> with the text of the check,
  \<^verbatim>\<open>support::Socket::Error(msg)\<close>, the \<^verbatim>\<open>std::length_error\<close> of
  \<^verbatim>\<open>std::string::resize\<close>, a failed \<^verbatim>\<open>Any::cast\<close>, and whatever a remote
  initialisation call raises. Reading the argument array of a packed function past its end
  is undefined in C++; the model stops there with \<open>OutOfBounds\<close>.
\<close>

datatype error =
    Fatal string
  | CheckFailed string
  | SocketError string
  | LengthError
  | OutOfBounds
  | CastError
  | RemoteError string

text \<open>
  \<^verbatim>\<open>ffi::Function\<close> is an opaque callable, \<^verbatim>\<open>ffi::Any\<close> a tagged value; the
  tags are those of the arguments that the functions of the file are given.
\<close>

datatype Function = FunctionRef nat

datatype Any =
    AnyBool bool
  | AnyInt "64 word"
  | AnyStr string
  | AnyFunction Function

type_synonym PackedArgs = "Any list"

text \<open>
  What the translation unit takes from its headers and its target: the handshake constant
  \<^verbatim>\<open>kRPCMagic\<close> (declared in \<^verbatim>\<open>rpc_endpoint.h\<close>) and the byte order in which
  the host stores an \<^verbatim>\<open>int\<close>. Both are parameters of the model.
\<close>

datatype endian = LittleEndian | BigEndian

record platform =
  kRPCMagic :: "32 word"
  byte_order :: endian

text \<open>
  \<^verbatim>\<open>SendAll(&code, sizeof(code))\<close> sends the four bytes of the object representation
  of an \<^verbatim>\<open>int\<close>, \<^verbatim>\<open>RecvAll(&code, sizeof(code))\<close> overwrites them.
\<close>

fun le_nat :: "nat \<Rightarrow> nat \<Rightarrow> bytes" where
  "le_nat 0 n = []"
| "le_nat (Suc k) n = char_of n # le_nat k (n div 256)"

definition nat_le :: "bytes \<Rightarrow> nat" where
  "nat_le bs = foldr (\<lambda>c acc. of_char c + 256 * acc) bs 0"

definition host_order :: "platform \<Rightarrow> bytes \<Rightarrow> bytes" where
  "host_order P bs = (case byte_order P of LittleEndian \<Rightarrow> bs | BigEndian \<Rightarrow> rev bs)"

definition int_bytes :: "platform \<Rightarrow> 32 word \<Rightarrow> bytes" where
  "int_bytes P w = host_order P (le_nat 4 (unat w))"

definition bytes_int :: "platform \<Rightarrow> bytes \<Rightarrow> 32 word" where
  "bytes_int P bs = word_of_nat (nat_le (host_order P bs))"

text \<open>
  The conversions of the file: \<^verbatim>\<open>static_cast<int>(key.length())\<close> keeps the low 32
  bits; an \<^verbatim>\<open>int\<close> passed as a \<^verbatim>\<open>size_t\<close> and a \<^verbatim>\<open>ssize_t\<close> cast to
  \<^verbatim>\<open>size_t\<close> are taken modulo \<open>2 ^ 64\<close>.
\<close>

definition int_of_length :: "nat \<Rightarrow> 32 word" where
  "int_of_length n = word_of_nat n"

definition size_t_of_int :: "32 word \<Rightarrow> nat" where
  "size_t_of_int k = nat (sint k mod 2 ^ 64)"

definition size_t_of_ssize_t :: "int \<Rightarrow> nat" where
  "size_t_of_ssize_t n = nat (n mod 2 ^ 64)"

text \<open>\<^verbatim>\<open>key.c_str()\<close>: the characters of the string and the terminating NUL.\<close>

definition c_str :: "string \<Rightarrow> bytes" where
  "c_str s = s @ [CHR 0x00]"

text \<open>\<^verbatim>\<open>os << port\<close>: the decimal text of an \<^verbatim>\<open>int\<close>.\<close>

fun dec_nat :: "nat \<Rightarrow> string" where
  "dec_nat n = (if n < 10 then [char_of (48 + n)] else dec_nat (n div 10) @ [char_of (48 + n mod 10)])"

definition dec_int :: "int \<Rightarrow> string" where
  "dec_int i = (if i < 0 then CHR ''-'' # dec_nat (nat (- i)) else dec_nat (nat i))"

subsection \<open>The connection as state\<close>

text \<open>
  \<^verbatim>\<open>support::TCPSocket\<close> holds a descriptor; \<open>-1\<close> is \<^verbatim>\<open>INVALID_SOCKET\<close>.
  A channel is socket-backed or callback-backed, and an endpoint owns its channel together
  with the local key (\<^verbatim>\<open>name\<close>) and the key of the peer (\<^verbatim>\<open>remote_key\<close>), the
  three arguments of \<^verbatim>\<open>RPCEndpoint::Create\<close>.
\<close>

record TCPSocket =
  sockfd :: int

datatype RPCChannel =
    SockChannel TCPSocket
  | CallbackChannel Function Function

record RPCEndpoint =
  endpt_channel :: RPCChannel
  endpt_name :: string
  endpt_remote_key :: string

definition RPCEndpoint_Create :: "RPCChannel \<Rightarrow> string \<Rightarrow> string \<Rightarrow> RPCEndpoint" where
  "RPCEndpoint_Create channel name remote_key =
     \<lparr>endpt_channel = channel, endpt_name = name, endpt_remote_key = remote_key\<rparr>"

text \<open>
  One low-level \<^verbatim>\<open>send\<close>/\<^verbatim>\<open>recv\<close> may fail or transfer fewer bytes than asked for.
  The transport decides; \<open>script\<close> lists what the successive low-level calls will do, and a
  transport whose script is exhausted transfers all it is asked for. \<open>beyond\<close> is what
  the memory of the process holds behind a buffer, up to the end of what the process can
  read.
\<close>

datatype io = Fault | Chunk nat

text \<open>The calls made on the socket and the endpoint, in the order they are made.\<close>

datatype call =
    CSockAddr string int
  | CCreate
  | CConnect
  | CSendAll bytes
  | CRecvAll nat
  | CClose
  | CInitRemoteSession RPCEndpoint PackedArgs

record world =
  resolves :: bool
  fresh_fd :: int
  reachable :: bool
  script :: "io list"
  inbox :: bytes
  outbox :: bytes
  closed :: bool
  init_error :: "error option"
  calls :: "call list"
  beyond :: bytes

type_synonym 'a action = "world \<Rightarrow> (error + 'a) \<times> world"

definition return :: "'a \<Rightarrow> 'a action" where
  "return x w = (Inr x, w)"

definition throw :: "error \<Rightarrow> 'a action" where
  "throw e w = (Inl e, w)"

definition andThen :: "'a action \<Rightarrow> ('a \<Rightarrow> 'b action) \<Rightarrow> 'b action" where
  "andThen m f w = (case m w of (Inl e, w') \<Rightarrow> (Inl e, w') | (Inr x, w') \<Rightarrow> f x w')"

text \<open>\<^verbatim>\<open>try { body } catch (...) { }\<close>: whatever the body throws is dropped.\<close>

definition try_catch_all :: "unit action \<Rightarrow> unit action" where
  "try_catch_all body w = (case body w of (Inl e, w') \<Rightarrow> (Inr (), w') | (Inr x, w') \<Rightarrow> (Inr (), w'))"

text \<open>
  The end of an object. A local object is destroyed when the body raises past it
  (\<open>on_unwind\<close>, for an object that is handed to the caller when the body returns); a
  temporary is destroyed at the end of its full-expression, whether the body returns or
  raises (\<open>at_end\<close>). A destructor passes no exception on, and the exception of the
  body travels on after it.
\<close>

definition on_unwind :: "unit action \<Rightarrow> 'a action \<Rightarrow> 'a action" where
  "on_unwind dtor body w =
     (case body w of (Inl e, w') \<Rightarrow> (Inl e, snd (dtor w')) | (Inr x, w') \<Rightarrow> (Inr x, w'))"

definition at_end :: "unit action \<Rightarrow> 'a action \<Rightarrow> 'a action" where
  "at_end dtor body w = (case body w of (r, w') \<Rightarrow> (r, snd (dtor w')))"

definition note_call :: "call \<Rightarrow> unit action" where
  "note_call c w = (Inr (), w\<lparr>calls := calls w @ [c]\<rparr>)"

definition ICHECK :: "bool \<Rightarrow> string \<Rightarrow> unit action" where
  "ICHECK ok msg = (if ok then return () else throw (CheckFailed msg))"

definition ICHECK_EQ :: "nat \<Rightarrow> nat \<Rightarrow> string \<Rightarrow> unit action" where
  "ICHECK_EQ a b msg = (if a = b then return () else throw (CheckFailed msg))"

subsection \<open>The socket (support/socket.h)\<close>

text \<open>
  Modelled from the spec: \<^verbatim>\<open>support::SockAddr\<close> and \<^verbatim>\<open>support::TCPSocket\<close>
  (\<^verbatim>\<open>support/socket.h\<close>), the byte-stream primitive that provides
  \<^verbatim>\<open>send(buf) -> bytes-sent-or-error\<close> and \<^verbatim>\<open>recv(buf) -> bytes-read-or-error\<close>,
  possibly short; a result of 0 from \<^verbatim>\<open>recv\<close> is the orderly shutdown of the peer, the
  error result is \<open>-1\<close>.
\<close>

record SockAddr =
  addr_host :: string
  addr_port :: int

definition AsString :: "SockAddr \<Rightarrow> string" where
  "AsString addr = addr_host addr @ '':'' @ dec_int (addr_port addr)"

definition SockAddr_init :: "string \<Rightarrow> int \<Rightarrow> SockAddr action" where
  "SockAddr_init url port =
     andThen (note_call (CSockAddr url port)) (\<lambda>_ w.
       if resolves w then (Inr \<lparr>addr_host = url, addr_port = port\<rparr>, w)
       else (Inl (SocketError ''SockAddr''), w))"

definition TCPSocket_Create :: "TCPSocket action" where
  "TCPSocket_Create =
     andThen (note_call CCreate) (\<lambda>_ w.
       if fresh_fd w = - 1 then (Inl (SocketError ''Create''), w)
       else (Inr \<lparr>sockfd = fresh_fd w\<rparr>, w))"

definition TCPSocket_Connect :: "TCPSocket \<Rightarrow> SockAddr \<Rightarrow> bool action" where
  "TCPSocket_Connect sock addr = andThen (note_call CConnect) (\<lambda>_ w. (Inr (reachable w), w))"

definition TCPSocket_Close :: "TCPSocket \<Rightarrow> unit action" where
  "TCPSocket_Close sock =
     andThen (note_call CClose) (\<lambda>_ w.
       if sockfd sock = - 1 \<or> closed w
       then (Inl (SocketError ''Socket::Close double close the socket or close without create''), w)
       else (Inr (), w\<lparr>closed := True\<rparr>))"

text \<open>
  Modelled from the spec: \<^verbatim>\<open>TCPSocket::BadSocket\<close>, the test of the destructor for a
  socket that is already invalid: it holds no descriptor, or the descriptor is no longer
  open.
\<close>

definition TCPSocket_BadSocket :: "TCPSocket \<Rightarrow> bool action" where
  "TCPSocket_BadSocket sock w = (Inr (sockfd sock = - 1 \<or> closed w), w)"

text \<open>
  One \<^verbatim>\<open>send\<close>: the \<^verbatim>\<open>ssize_t\<close> result and the new state. The bytes the transport
  accepts are appended to \<open>outbox\<close>.
\<close>

definition TCPSocket_Send :: "TCPSocket \<Rightarrow> bytes \<Rightarrow> world \<Rightarrow> int \<times> world" where
  "TCPSocket_Send sock data w =
     (if sockfd sock = - 1 \<or> closed w then (- 1, w)
      else case script w of
        [] \<Rightarrow> (int (length data), w\<lparr>outbox := outbox w @ data\<rparr>)
      | Fault # rest \<Rightarrow> (- 1, w\<lparr>script := rest\<rparr>)
      | Chunk k # rest \<Rightarrow>
          (int (length (take k data)), w\<lparr>script := rest, outbox := outbox w @ take k data\<rparr>))"

text \<open>
  One \<^verbatim>\<open>recv\<close> into a buffer of \<open>sz\<close> bytes: the \<^verbatim>\<open>ssize_t\<close> result, the bytes
  written to the buffer, and the new state. The bytes are taken from \<open>inbox\<close>, all the
  peer sends before it shuts down.
\<close>

definition TCPSocket_Recv :: "TCPSocket \<Rightarrow> nat \<Rightarrow> world \<Rightarrow> (int \<times> bytes) \<times> world" where
  "TCPSocket_Recv sock sz w =
     (if sockfd sock = - 1 \<or> closed w then ((- 1, []), w)
      else case script w of
        [] \<Rightarrow> ((int (length (take sz (inbox w))), take sz (inbox w)),
               w\<lparr>inbox := drop sz (inbox w)\<rparr>)
      | Fault # rest \<Rightarrow> ((- 1, []), w\<lparr>script := rest\<rparr>)
      | Chunk k # rest \<Rightarrow>
          ((int (length (take (min k sz) (inbox w))), take (min k sz) (inbox w)),
           w\<lparr>script := rest, inbox := drop (min k sz) (inbox w)\<rparr>))"

text \<open>
  Modelled from the spec: \<^verbatim>\<open>TCPSocket::SendAll\<close> and \<^verbatim>\<open>TCPSocket::RecvAll\<close>, the
  retry-until-exact-byte-count loops around \<^verbatim>\<open>send\<close> and \<^verbatim>\<open>recv\<close>: the caller
  loops until the exact byte count is satisfied or an error or EOF occurs. \<open>SendAll\<close>
  returns the number of bytes sent, \<open>RecvAll\<close> the bytes received (their number is the
  result of the C++ function).
\<close>

function SendAll_loop :: "TCPSocket \<Rightarrow> bytes \<Rightarrow> nat \<Rightarrow> world \<Rightarrow> (error + nat) \<times> world" where
  "SendAll_loop sock buf ndone w =
     (if ndone < length buf then
        (case TCPSocket_Send sock (drop ndone buf) w of (ret, w') \<Rightarrow>
           if ret = - 1 then (Inl (SocketError ''SendAll''), w')
           else SendAll_loop sock buf (ndone + nat ret) w')
      else (Inr ndone, w))"
  by pat_completeness auto
termination
proof (relation "measure (\<lambda>(sock, buf, ndone, w). (length buf - ndone) + length (script w))")
  show "wf (measure (\<lambda>(sock, buf, ndone, w). (length buf - ndone) + length (script w)))"
    by simp
next
  fix sock :: TCPSocket and buf :: bytes and ndone :: nat and w w' :: world and ret :: int
  assume lt: "ndone < length buf" and eq: "(ret, w') = TCPSocket_Send sock (drop ndone buf) w"
    and ok: "ret \<noteq> - 1"
  show "((sock, buf, ndone + nat ret, w'), (sock, buf, ndone, w))
          \<in> measure (\<lambda>(sock, buf, ndone, w). (length buf - ndone) + length (script w))"
  proof (cases "script w")
    case Nil
    with eq ok lt show ?thesis
      by (auto simp: TCPSocket_Send_def split: if_splits)
  next
    case (Cons c rest)
    with eq ok lt show ?thesis
      by (cases c) (auto simp: TCPSocket_Send_def split: if_splits)
  qed
qed

function RecvAll_loop :: "TCPSocket \<Rightarrow> nat \<Rightarrow> bytes \<Rightarrow> world \<Rightarrow> (error + bytes) \<times> world" where
  "RecvAll_loop sock len acc w =
     (if length acc < len then
        (case TCPSocket_Recv sock (len - length acc) w of ((ret, chunk), w') \<Rightarrow>
           if ret = - 1 then (Inl (SocketError ''RecvAll''), w')
           else if ret = 0 then (Inr acc, w')
           else RecvAll_loop sock len (acc @ chunk) w')
      else (Inr acc, w))"
  by pat_completeness auto
termination
proof (relation "measure (\<lambda>(sock, len, acc, w). len - length acc)")
  show "wf (measure (\<lambda>(sock, len, acc, w). len - length acc))"
    by simp
next
  fix sock :: TCPSocket and len :: nat and acc chunk :: bytes and w w' :: world
    and x :: "int \<times> bytes" and ret :: int
  assume lt: "length acc < len" and eq: "(x, w') = TCPSocket_Recv sock (len - length acc) w"
    and x: "(ret, chunk) = x" and ok: "ret \<noteq> - 1" "ret \<noteq> 0"
  have "ret = int (length chunk)"
    using eq x ok by (auto simp: TCPSocket_Recv_def split: if_splits list.splits io.splits)
  with ok have "chunk \<noteq> []"
    by auto
  with lt show "((sock, len, acc @ chunk, w'), (sock, len, acc, w))
                  \<in> measure (\<lambda>(sock, len, acc, w). len - length acc)"
    by (cases chunk) auto
qed

declare SendAll_loop.simps [simp del] RecvAll_loop.simps [simp del]

text \<open>
  Modelled from the spec, as the loop above:
  \<^verbatim>\<open>SendAll(buf, len)\<close> sends the \<open>len\<close> bytes that start at \<open>buf\<close>; \<open>mem\<close> is
  the object that \<open>buf\<close> points to. The loop does not know where the object ends: with a
  \<open>len\<close> larger than the object it goes on with the bytes that lie behind it
  (\<open>beyond\<close>), and the \<^verbatim>\<open>send\<close> that starts where the process can read no more
  fails. (C++ leaves the read past the object undefined; this is the loop on a flat
  memory.) The call is recorded with the bytes it has to send.
\<close>

definition TCPSocket_SendAll :: "TCPSocket \<Rightarrow> bytes \<Rightarrow> nat \<Rightarrow> nat action" where
  "TCPSocket_SendAll sock mem len w =
     (let buf = take len (mem @ beyond w) in
      andThen (note_call (CSendAll buf)) (\<lambda>_.
      andThen (SendAll_loop sock buf 0) (\<lambda>ndone.
        if ndone < len then throw (SocketError ''SendAll'') else return ndone)) w)"

definition TCPSocket_RecvAll :: "TCPSocket \<Rightarrow> nat \<Rightarrow> bytes action" where
  "TCPSocket_RecvAll sock len = andThen (note_call (CRecvAll len)) (\<lambda>_. RecvAll_loop sock len [])"

subsection \<open>SockChannel\<close>

text \<open>
  \<^verbatim>\<open>SockChannel::Send\<close> and \<^verbatim>\<open>SockChannel::Recv\<close>: one call of the socket, the
  result \<open>-1\<close> raised through \<^verbatim>\<open>support::Socket::Error\<close>, any other result cast
  to \<^verbatim>\<open>size_t\<close>. \<open>Recv\<close> returns the count together with the bytes written to
  the buffer.
\<close>

definition SockChannel_Send :: "TCPSocket \<Rightarrow> bytes \<Rightarrow> nat action" where
  "SockChannel_Send sock data w =
     (case TCPSocket_Send sock data w of (n, w') \<Rightarrow>
        if n = - 1 then (Inl (SocketError ''SockChannel::Send''), w')
        else (Inr (size_t_of_ssize_t n), w'))"

definition SockChannel_Recv :: "TCPSocket \<Rightarrow> nat \<Rightarrow> (nat \<times> bytes) action" where
  "SockChannel_Recv sock sz w =
     (case TCPSocket_Recv sock sz w of ((n, chunk), w') \<Rightarrow>
        if n = - 1 then (Inl (SocketError ''SockChannel::Recv''), w')
        else (Inr (size_t_of_ssize_t n, chunk), w'))"

text \<open>
  \<^verbatim>\<open>SockChannel::~SockChannel\<close>. \<^verbatim>\<open>BadSocket\<close> (which can throw) and
  \<^verbatim>\<open>Close\<close> of the socket are parameters: the destructor is modelled for every
  behaviour of the two.
\<close>

definition SockChannel_dtor ::
  "(TCPSocket \<Rightarrow> bool action) \<Rightarrow> (TCPSocket \<Rightarrow> unit action) \<Rightarrow> TCPSocket \<Rightarrow> unit action" where
  "SockChannel_dtor BadSocket Close sock =
     try_catch_all
       (andThen (BadSocket sock) (\<lambda>bad.
          if \<not> bad then Close sock else return ()))"

text \<open>
  Modelled from the spec: the end of an Endpoint (\<^verbatim>\<open>rpc_endpoint.cc\<close>). An Endpoint
  owns its channel exclusively, and the channel is destroyed when the Endpoint is torn
  down. For a socket-backed channel that is \<^verbatim>\<open>~SockChannel\<close> above, on the socket of
  the model; a callback-backed channel (\<^verbatim>\<open>rpc_channel.cc\<close>) holds two functions and no
  descriptor.
\<close>

definition RPCEndpoint_dtor :: "RPCEndpoint \<Rightarrow> unit action" where
  "RPCEndpoint_dtor endpt =
     (case endpt_channel endpt of
        SockChannel sock \<Rightarrow> SockChannel_dtor TCPSocket_BadSocket TCPSocket_Close sock
      | CallbackChannel fsend frecv \<Rightarrow> return ())"

subsection \<open>The client handshake\<close>

text \<open>
  Modelled from the spec: \<^verbatim>\<open>RPCEndpoint::InitRemoteSession\<close> (\<^verbatim>\<open>rpc_endpoint.cc\<close>),
  which forwards the initial argument sequence as the first call to the newly created
  session. The call is recorded; whether it raises is decided by the peer (\<open>init_error\<close>).
\<close>

definition InitRemoteSession :: "RPCEndpoint \<Rightarrow> PackedArgs \<Rightarrow> unit action" where
  "InitRemoteSession endpt init_seq =
     andThen (note_call (CInitRemoteSession endpt init_seq)) (\<lambda>_ w.
       case init_error w of None \<Rightarrow> (Inr (), w) | Some e \<Rightarrow> (Inl e, w))"

text \<open>
  \<^verbatim>\<open>std::string::resize(n)\<close> throws \<^verbatim>\<open>std::length_error\<close> beyond
  \<^verbatim>\<open>max_size()\<close>, which no implementation puts above \<open>2 ^ 63 - 1\<close>.
\<close>

definition string_resize :: "nat \<Rightarrow> unit action" where
  "string_resize n = (if 2 ^ 63 - 1 < n then throw LengthError else return ())"

text \<open>
  \<^verbatim>\<open>RPCConnect\<close>. The local \<^verbatim>\<open>sock\<close> is a handle; the channel holds a copy of
  it, and the descriptor is closed by \<^verbatim>\<open>Close\<close> only. The endpoint \<^verbatim>\<open>endpt\<close>
  is the one owner of the channel: when \<^verbatim>\<open>InitRemoteSession\<close> raises, \<^verbatim>\<open>endpt\<close>
  is destroyed on the way out and the channel with it; when it returns, \<^verbatim>\<open>endpt\<close>
  is handed to the caller.
\<close>

definition RPCConnect ::
  "platform \<Rightarrow> string \<Rightarrow> int \<Rightarrow> string \<Rightarrow> bool \<Rightarrow> PackedArgs \<Rightarrow> RPCEndpoint action" where
  "RPCConnect P url port key enable_logging init_seq =
     andThen (SockAddr_init url port) (\<lambda>addr.
     andThen TCPSocket_Create (\<lambda>sock.
     andThen (TCPSocket_Connect sock addr) (\<lambda>connected.
     andThen (ICHECK connected (''Connect to '' @ AsString addr @ '' failed'')) (\<lambda>_.
     let code = kRPCMagic P;
         keylen = int_of_length (length key)
     in
     andThen (TCPSocket_SendAll sock (int_bytes P code) 4) (\<lambda>n.
     andThen (ICHECK_EQ n 4 ''sock.SendAll(&code, sizeof(code)) == sizeof(code)'') (\<lambda>_.
     andThen (TCPSocket_SendAll sock (int_bytes P keylen) 4) (\<lambda>n.
     andThen (ICHECK_EQ n 4 ''sock.SendAll(&keylen, sizeof(keylen)) == sizeof(keylen)'') (\<lambda>_.
     andThen
       (if keylen \<noteq> 0 then
          andThen (TCPSocket_SendAll sock (c_str key) (size_t_of_int keylen)) (\<lambda>n.
            ICHECK_EQ n (size_t_of_int keylen) ''sock.SendAll(key.c_str(), keylen) == keylen'')
        else return ()) (\<lambda>_.
     andThen (TCPSocket_RecvAll sock 4) (\<lambda>buf.
     andThen (ICHECK_EQ (length buf) 4 ''sock.RecvAll(&code, sizeof(code)) == sizeof(code)'') (\<lambda>_.
     let code = bytes_int P buf in
     andThen
       (if code = kRPCMagic P + 2 then
          andThen (TCPSocket_Close sock) (\<lambda>_.
            throw (Fatal (''URL '' @ url @ '':'' @ dec_int port
                          @ '' cannot find server that matches key='' @ key)))
        else if code = kRPCMagic P + 1 then
          andThen (TCPSocket_Close sock) (\<lambda>_.
            throw (Fatal (''URL '' @ url @ '':'' @ dec_int port
                          @ '' server already have key='' @ key)))
        else if code \<noteq> kRPCMagic P then
          andThen (TCPSocket_Close sock) (\<lambda>_.
            throw (Fatal (''URL '' @ url @ '':'' @ dec_int port @ '' is not TVM RPC server'')))
        else return ()) (\<lambda>_.
     andThen (TCPSocket_RecvAll sock 4) (\<lambda>buf.
     andThen (ICHECK_EQ (length buf) 4 ''sock.RecvAll(&keylen, sizeof(keylen)) == sizeof(keylen)'') (\<lambda>_.
     let keylen = bytes_int P buf in
     andThen
       (if keylen \<noteq> 0 then
          andThen (string_resize (size_t_of_int keylen)) (\<lambda>_.
          andThen (TCPSocket_RecvAll sock (size_t_of_int keylen)) (\<lambda>remote_key.
          andThen (ICHECK_EQ (length remote_key) (size_t_of_int keylen)
                     ''sock.RecvAll(&remote_key[0], keylen) == keylen'') (\<lambda>_.
          return remote_key)))
        else return []) (\<lambda>remote_key.
     let channel = SockChannel sock;
         endpt = RPCEndpoint_Create channel key remote_key
     in
     on_unwind (RPCEndpoint_dtor endpt)
       (andThen (InitRemoteSession endpt init_seq) (\<lambda>_.
        return endpt)))))))))))))))))"

text \<open>
  \<^verbatim>\<open>RPCClientConnect\<close>. \<^verbatim>\<open>CreateClientSession\<close> and
  \<^verbatim>\<open>CreateRPCSessionModule\<close> wrap the endpoint and do no I/O.
\<close>

datatype RPCSession = ClientSession RPCEndpoint

datatype Module = RPCSessionModule RPCSession

definition CreateClientSession :: "RPCEndpoint \<Rightarrow> RPCSession" where
  "CreateClientSession endpt = ClientSession endpt"

definition CreateRPCSessionModule :: "RPCSession \<Rightarrow> Module" where
  "CreateRPCSessionModule sess = RPCSessionModule sess"

definition RPCClientConnect ::
  "platform \<Rightarrow> string \<Rightarrow> int \<Rightarrow> string \<Rightarrow> bool \<Rightarrow> PackedArgs \<Rightarrow> Module action" where
  "RPCClientConnect P url port key enable_logging init_seq =
     andThen (RPCConnect P url port (''client:'' @ key) enable_logging init_seq) (\<lambda>endpt.
     return (CreateRPCSessionModule (CreateClientSession endpt)))"

subsection \<open>The server loop entry points\<close>

text \<open>
  \<^verbatim>\<open>RPCServerLoop(int sockfd)\<close> and
  \<^verbatim>\<open>RPCServerLoop(ffi::Function fsend, ffi::Function frecv)\<close>.
  \<^verbatim>\<open>RPCEndpoint::ServerLoop\<close> is defined in \<^verbatim>\<open>rpc_endpoint.cc\<close>; it is the
  parameter \<open>ServerLoop\<close>, any function of the endpoint and the state. The Endpoint
  is a temporary of the statement that runs the loop: it is destroyed, and its channel
  with it, when the loop has returned or raised.
\<close>

definition RPCServerLoop_sockfd :: "(RPCEndpoint \<Rightarrow> 'a action) \<Rightarrow> int \<Rightarrow> 'a action" where
  "RPCServerLoop_sockfd ServerLoop fd =
     (let sock = \<lparr>sockfd = fd\<rparr>;
          endpt = RPCEndpoint_Create (SockChannel sock) ''SockServerLoop'' []
      in at_end (RPCEndpoint_dtor endpt) (ServerLoop endpt))"

definition RPCServerLoop_callback ::
  "(RPCEndpoint \<Rightarrow> 'a action) \<Rightarrow> Function \<Rightarrow> Function \<Rightarrow> 'a action" where
  "RPCServerLoop_callback ServerLoop fsend frecv =
     (let endpt = RPCEndpoint_Create (CallbackChannel fsend frecv) ''SockServerLoop'' []
      in at_end (RPCEndpoint_dtor endpt) (ServerLoop endpt))"

text \<open>
  The packed function \<^verbatim>\<open>rpc.ServerLoop\<close>. \<^verbatim>\<open>args[0].as<int64_t>()\<close> holds for an
  integer argument only, and the \<^verbatim>\<open>int64_t\<close> is narrowed to the \<^verbatim>\<open>int\<close> parameter;
  otherwise the first two arguments are cast to functions. An argument that is missing is
  read past the end of the argument array.
\<close>

definition int_of_int64 :: "64 word \<Rightarrow> int" where
  "int_of_int64 i = sint (ucast i :: 32 word)"

fun rpc_ServerLoop :: "(RPCEndpoint \<Rightarrow> unit action) \<Rightarrow> PackedArgs \<Rightarrow> unit action" where
  "rpc_ServerLoop ServerLoop (AnyInt opt_int # args) =
     RPCServerLoop_sockfd ServerLoop (int_of_int64 opt_int)"
| "rpc_ServerLoop ServerLoop (AnyFunction fsend # AnyFunction frecv # args) =
     RPCServerLoop_callback ServerLoop fsend frecv"
| "rpc_ServerLoop ServerLoop (a # b # args) = throw CastError"
| "rpc_ServerLoop ServerLoop args = throw OutOfBounds"

subsection \<open>Returning an exception on a raw socket\<close>

text \<open>
  \<^verbatim>\<open>SimpleSockHandler\<close>: \<^verbatim>\<open>Read\<close> and \<^verbatim>\<open>Write\<close> are one
  \<^verbatim>\<open>Recv\<close> and one \<^verbatim>\<open>Send\<close> of the socket, the result returned as a
  \<^verbatim>\<open>size_t\<close>.
\<close>

definition SimpleSockHandler_Read :: "TCPSocket \<Rightarrow> nat \<Rightarrow> (nat \<times> bytes) action" where
  "SimpleSockHandler_Read sock sz w =
     (case TCPSocket_Recv sock sz w of ((n, chunk), w') \<Rightarrow> (Inr (size_t_of_ssize_t n, chunk), w'))"

definition SimpleSockHandler_Write :: "TCPSocket \<Rightarrow> bytes \<Rightarrow> nat action" where
  "SimpleSockHandler_Write sock data w =
     (case TCPSocket_Send sock data w of (n, w') \<Rightarrow> (Inr (size_t_of_ssize_t n), w'))"

text \<open>
  Modelled from the spec: \<^verbatim>\<open>RPCReference::ReturnException\<close> (\<^verbatim>\<open>rpc_reference.h\<close>),
  which writes a single exception frame (marker + length-prefixed text) to the channel it
  is given. The message reaches it as a \<^verbatim>\<open>const char*\<close> (the call passes
  \<^verbatim>\<open>msg.c_str()\<close>), so its text is what precedes the first NUL. The marker is a
  parameter; the length is written as 8 bytes in host order. The frame goes out in three
  writes, whose results are not looked at.
\<close>

definition strlen_text :: "bytes \<Rightarrow> bytes" where
  "strlen_text mem = takeWhile (\<lambda>c. c \<noteq> CHR 0x00) mem"

definition ReturnException ::
  "platform \<Rightarrow> bytes \<Rightarrow> bytes \<Rightarrow> (bytes \<Rightarrow> nat action) \<Rightarrow> unit action" where
  "ReturnException P marker msg Write =
     (let text = strlen_text msg in
      andThen (Write marker) (\<lambda>_.
      andThen (Write (host_order P (le_nat 8 (length text)))) (\<lambda>_.
      andThen (Write text) (\<lambda>_.
      return ()))))"

text \<open>The function registered as \<^verbatim>\<open>rpc.ReturnException\<close>.\<close>

definition rpc_ReturnException :: "platform \<Rightarrow> bytes \<Rightarrow> int \<Rightarrow> string \<Rightarrow> unit action" where
  "rpc_ReturnException P marker fd msg =
     (let handler = \<lparr>sockfd = fd\<rparr>
      in ReturnException P marker (c_str msg) (SimpleSockHandler_Write handler))"

text \<open>
  Modelled from the spec: the receiving side, which recognises the marker of an exception
  frame and converts the frame into a raised error carrying the message text. \<open>None\<close>:
  the stream does not start with a complete exception frame.
\<close>

definition decode_exception :: "platform \<Rightarrow> bytes \<Rightarrow> bytes \<Rightarrow> error option" where
  "decode_exception P marker stream =
     (if take (length marker) stream = marker \<and> length marker + 8 \<le> length stream then
        (let n = nat_le (host_order P (take 8 (drop (length marker) stream)));
             body = drop (length marker + 8) stream
         in if n \<le> length body then Some (RemoteError (take n body)) else None)
      else None)"

text \<open>
  Modelled from the spec: how the owning Endpoint (\<^verbatim>\<open>rpc_endpoint.cc\<close>) takes the
  outcome of a \<open>Recv\<close> of its channel: a transport fault is raised by the channel and
  ends the Endpoint's work; a return value of 0 is the orderly shutdown of the peer, which
  is terminal for the Endpoint as well.
\<close>

definition Endpoint_Recv :: "TCPSocket \<Rightarrow> nat \<Rightarrow> bytes action" where
  "Endpoint_Recv sock sz =
     andThen (SockChannel_Recv sock sz) (\<lambda>(n, chunk).
       if n = 0 then throw (Fatal ''Channel closes before we get needed bytes'')
       else return chunk)"

subsection \<open>Devices of the proofs\<close>

text \<open>
  A transport is steady when the socket is open and every low-level call transfers at
  least one byte and never fails; the host is connectable when the address resolves, a
  socket can be created and the connection is accepted.
\<close>

fun positive :: "io \<Rightarrow> bool" where
  "positive Fault = False"
| "positive (Chunk k) = (0 < k)"

definition steady :: "world \<Rightarrow> bool" where
  "steady w = (\<not> closed w \<and> list_all positive (script w))"

definition connectable :: "world \<Rightarrow> bool" where
  "connectable w = (resolves w \<and> fresh_fd w \<noteq> - 1 \<and> reachable w)"

text \<open>
  The two halves of \<open>RPCConnect\<close>: the request (lines 70 to 82 of the file) and what
  follows the request (lines 83 to 105).
\<close>

definition RPCConnect_request :: "platform \<Rightarrow> string \<Rightarrow> int \<Rightarrow> string \<Rightarrow> TCPSocket action" where
  "RPCConnect_request P url port key =
     andThen (SockAddr_init url port) (\<lambda>addr.
     andThen TCPSocket_Create (\<lambda>sock.
     andThen (TCPSocket_Connect sock addr) (\<lambda>connected.
     andThen (ICHECK connected (''Connect to '' @ AsString addr @ '' failed'')) (\<lambda>_.
     andThen (TCPSocket_SendAll sock (int_bytes P (kRPCMagic P)) 4) (\<lambda>n.
     andThen (ICHECK_EQ n 4 ''sock.SendAll(&code, sizeof(code)) == sizeof(code)'') (\<lambda>_.
     andThen (TCPSocket_SendAll sock (int_bytes P (int_of_length (length key))) 4) (\<lambda>n.
     andThen (ICHECK_EQ n 4 ''sock.SendAll(&keylen, sizeof(keylen)) == sizeof(keylen)'') (\<lambda>_.
     andThen
       (if int_of_length (length key) \<noteq> 0 then
          andThen (TCPSocket_SendAll sock (c_str key) (size_t_of_int (int_of_length (length key)))) (\<lambda>n.
            ICHECK_EQ n (size_t_of_int (int_of_length (length key)))
              ''sock.SendAll(key.c_str(), keylen) == keylen'')
        else return ()) (\<lambda>_.
     return sock)))))))))"

definition RPCConnect_reject ::
  "platform \<Rightarrow> string \<Rightarrow> int \<Rightarrow> string \<Rightarrow> TCPSocket \<Rightarrow> 32 word \<Rightarrow> unit action" where
  "RPCConnect_reject P url port key sock code =
     (if code = kRPCMagic P + 2 then
        andThen (TCPSocket_Close sock) (\<lambda>_.
          throw (Fatal (''URL '' @ url @ '':'' @ dec_int port
                        @ '' cannot find server that matches key='' @ key)))
      else if code = kRPCMagic P + 1 then
        andThen (TCPSocket_Close sock) (\<lambda>_.
          throw (Fatal (''URL '' @ url @ '':'' @ dec_int port
                        @ '' server already have key='' @ key)))
      else if code \<noteq> kRPCMagic P then
        andThen (TCPSocket_Close sock) (\<lambda>_.
          throw (Fatal (''URL '' @ url @ '':'' @ dec_int port @ '' is not TVM RPC server'')))
      else return ())"

definition RPCConnect_remote_key :: "platform \<Rightarrow> TCPSocket \<Rightarrow> string action" where
  "RPCConnect_remote_key P sock =
     andThen (TCPSocket_RecvAll sock 4) (\<lambda>buf.
     andThen (ICHECK_EQ (length buf) 4 ''sock.RecvAll(&keylen, sizeof(keylen)) == sizeof(keylen)'') (\<lambda>_.
     if bytes_int P buf \<noteq> 0 then
       andThen (string_resize (size_t_of_int (bytes_int P buf))) (\<lambda>_.
       andThen (TCPSocket_RecvAll sock (size_t_of_int (bytes_int P buf))) (\<lambda>remote_key.
       andThen (ICHECK_EQ (length remote_key) (size_t_of_int (bytes_int P buf))
                  ''sock.RecvAll(&remote_key[0], keylen) == keylen'') (\<lambda>_.
       return remote_key)))
     else return []))"

definition RPCConnect_response ::
  "platform \<Rightarrow> string \<Rightarrow> int \<Rightarrow> string \<Rightarrow> PackedArgs \<Rightarrow> TCPSocket \<Rightarrow> RPCEndpoint action" where
  "RPCConnect_response P url port key init_seq sock =
     andThen (TCPSocket_RecvAll sock 4) (\<lambda>buf.
     andThen (ICHECK_EQ (length buf) 4 ''sock.RecvAll(&code, sizeof(code)) == sizeof(code)'') (\<lambda>_.
     andThen (RPCConnect_reject P url port key sock (bytes_int P buf)) (\<lambda>_.
     andThen (RPCConnect_remote_key P sock) (\<lambda>remote_key.
     on_unwind (RPCEndpoint_dtor (RPCEndpoint_Create (SockChannel sock) key remote_key))
       (andThen (InitRemoteSession (RPCEndpoint_Create (SockChannel sock) key remote_key) init_seq) (\<lambda>_.
        return (RPCEndpoint_Create (SockChannel sock) key remote_key)))))))"

text \<open>
  The three failures of the handshake as the specification names them, the response code
  of each, and the message with which \<open>RPCConnect\<close> raises it.
\<close>

datatype failure = KeyNotFound | KeyConflict | ProtocolMismatch

definition failure_of_code :: "platform \<Rightarrow> 32 word \<Rightarrow> failure" where
  "failure_of_code P code =
     (if code = kRPCMagic P + 2 then KeyNotFound
      else if code = kRPCMagic P + 1 then KeyConflict
      else ProtocolMismatch)"

definition failure_message :: "string \<Rightarrow> int \<Rightarrow> string \<Rightarrow> failure \<Rightarrow> string" where
  "failure_message url port key f =
     ''URL '' @ url @ '':'' @ dec_int port @
       (case f of
          KeyNotFound \<Rightarrow> '' cannot find server that matches key='' @ key
        | KeyConflict \<Rightarrow> '' server already have key='' @ key
        | ProtocolMismatch \<Rightarrow> '' is not TVM RPC server'')"

text \<open>
  The calls and the bytes of a complete request. The key bytes are the first
  \<open>keylen\<close> characters of the key, \<open>keylen\<close> taken as a \<^verbatim>\<open>size_t\<close>.
\<close>

definition request_calls :: "platform \<Rightarrow> string \<Rightarrow> int \<Rightarrow> string \<Rightarrow> call list" where
  "request_calls P url port key =
     [CSockAddr url port, CCreate, CConnect,
      CSendAll (int_bytes P (kRPCMagic P)),
      CSendAll (int_bytes P (int_of_length (length key)))]
     @ (if int_of_length (length key) \<noteq> 0
        then [CSendAll (take (size_t_of_int (int_of_length (length key))) key)] else [])"

definition request_bytes :: "platform \<Rightarrow> string \<Rightarrow> bytes" where
  "request_bytes P key =
     int_bytes P (kRPCMagic P) @ int_bytes P (int_of_length (length key))
     @ take (size_t_of_int (int_of_length (length key))) key"

text \<open>
  \<open>follows m cs bs\<close>: in every state, \<open>m\<close> makes the calls \<open>cs\<close> and sends the
  bytes \<open>bs\<close> when it returns, and has made an initial part of the calls and sent an
  initial part of the bytes when it raises. \<open>hears m\<close>: in every state, \<open>m\<close> sends
  nothing and makes no call that sends.
\<close>

definition follows :: "'a action \<Rightarrow> call list \<Rightarrow> bytes \<Rightarrow> bool" where
  "follows m cs bs =
     (\<forall>w. case m w of
        (Inr x, w') \<Rightarrow> calls w' = calls w @ cs \<and> outbox w' = outbox w @ bs
      | (Inl e, w') \<Rightarrow>
          (\<exists>pre b. calls w' = calls w @ pre \<and> prefix pre cs
                 \<and> outbox w' = outbox w @ b \<and> prefix b bs))"

text \<open>\<open>returns_only m G\<close>: whatever \<open>m\<close> returns, in any state, satisfies \<open>G\<close>.\<close>

definition returns_only :: "'a action \<Rightarrow> ('a \<Rightarrow> bool) \<Rightarrow> bool" where
  "returns_only m G = (\<forall>w. case m w of (Inr x, w') \<Rightarrow> G x | (Inl e, w') \<Rightarrow> True)"

fun is_send :: "call \<Rightarrow> bool" where
  "is_send (CSendAll b) = True"
| "is_send c = False"

definition hears :: "'a action \<Rightarrow> bool" where
  "hears m =
     (\<forall>w. case m w of
        (r, w') \<Rightarrow> outbox w' = outbox w
          \<and> (\<exists>cs. calls w' = calls w @ cs \<and> \<not> list_ex is_send cs))"

text \<open>
  A platform and a state of the connection on which the properties are tried: the
  transport takes 3 bytes, then 1, then 2, then all it is given; \<open>peer\<close> is what the
  server sends.
\<close>

definition example_platform :: platform where
  "example_platform = \<lparr>kRPCMagic = 0xff271, byte_order = LittleEndian\<rparr>"

definition example_world :: "bytes \<Rightarrow> world" where
  "example_world peer =
     \<lparr>resolves = True, fresh_fd = 3, reachable = True, script = [Chunk 3, Chunk 1, Chunk 2],
      inbox = peer, outbox = [], closed = False, init_error = None, calls = [], beyond = []\<rparr>"

section \<open>Properties\<close>

subsection \<open>Sequencing\<close>

lemma andThen_return [simp]: "andThen (return x) f = f x"
  by (rule ext) (simp add: andThen_def return_def)

lemma andThen_throw [simp]: "andThen (throw e) f = throw e"
  by (rule ext) (simp add: andThen_def throw_def)

lemma andThen_assoc: "andThen (andThen m f) g = andThen m (\<lambda>x. andThen (f x) g)"
  by (rule ext) (simp add: andThen_def split: prod.splits sum.splits)

lemma andThen_Inr: "m w = (Inr x, w') \<Longrightarrow> andThen m f w = f x w'"
  by (simp add: andThen_def)

lemma andThen_Inl: "m w = (Inl e, w') \<Longrightarrow> andThen m f w = (Inl e, w')"
  by (simp add: andThen_def)

lemma RPCConnect_halves:
  "RPCConnect P url port key enable_logging init_seq =
     andThen (RPCConnect_request P url port key) (RPCConnect_response P url port key init_seq)"
  unfolding RPCConnect_def RPCConnect_request_def RPCConnect_response_def
    RPCConnect_reject_def RPCConnect_remote_key_def Let_def
  by (simp add: andThen_assoc if_distrib [of "\<lambda>m. andThen m f" for f] cong: if_cong)

subsection \<open>Bytes and conversions\<close>

lemma length_le_nat [simp]: "length (le_nat k n) = k"
  by (induction k arbitrary: n) auto

lemma le_nat_numeral:
  "le_nat (numeral k) n = char_of n # le_nat (pred_numeral k) (n div 256)"
proof -
  have "le_nat (Suc (pred_numeral k)) n = char_of n # le_nat (pred_numeral k) (n div 256)"
    by (rule le_nat.simps(2))
  then show ?thesis
    by (simp only: numeral_eq_Suc [symmetric])
qed

lemma nat_le_Cons: "nat_le (c # bs) = of_char c + 256 * nat_le bs"
  by (simp add: nat_le_def)

lemma nat_le_le_nat: "nat_le (le_nat k n) = n mod 256 ^ k"
proof (induction k arbitrary: n)
  case 0
  show ?case by (simp add: nat_le_def)
next
  case (Suc k)
  have "nat_le (le_nat (Suc k) n) = n mod 256 + 256 * ((n div 256) mod 256 ^ k)"
    by (simp add: nat_le_Cons Suc)
  also have "\<dots> = n mod 256 ^ Suc k"
    by (simp add: mod_mult2_eq)
  finally show ?case .
qed

lemma host_order_idem [simp]: "host_order P (host_order P bs) = bs"
  by (simp add: host_order_def split: endian.splits)

lemma length_host_order [simp]: "length (host_order P bs) = length bs"
  by (simp add: host_order_def split: endian.splits)

lemma length_int_bytes [simp]: "length (int_bytes P w) = 4"
  by (simp add: int_bytes_def)

lemma bytes_int_int_bytes [simp]: "bytes_int P (int_bytes P w) = w"
proof -
  have "unat w < 2 ^ 32"
    using unsigned_less [of w] by simp
  then have "unat w mod 256 ^ 4 = unat w"
    by simp
  then show ?thesis
    by (simp add: bytes_int_def int_bytes_def nat_le_le_nat)
qed

lemma sint_int_of_length: "n < 2 ^ 31 \<Longrightarrow> sint (int_of_length n) = int n"
proof -
  assume n: "n < 2 ^ 31"
  have "sint (word_of_nat n :: 32 word) = signed_take_bit 31 (int n)"
    by (simp add: signed_of_nat)
  also have "\<dots> = int n"
    using n by (intro signed_take_bit_int_eq_self) auto
  finally show ?thesis
    by (simp add: int_of_length_def)
qed

lemma size_t_of_int_length: "n < 2 ^ 31 \<Longrightarrow> size_t_of_int (int_of_length n) = n"
  by (simp add: size_t_of_int_def sint_int_of_length)

lemma unat_int_of_length: "n < 2 ^ 32 \<Longrightarrow> unat (int_of_length n) = n"
  by (simp add: int_of_length_def unat_of_nat)

lemma int_of_length_eq_0: "n < 2 ^ 32 \<Longrightarrow> int_of_length n = 0 \<longleftrightarrow> n = 0"
  using unat_int_of_length [of n] by (auto simp: int_of_length_def)
lemma sint_nonneg_uint:
  fixes k :: "32 word"
  assumes "0 \<le> sint k"
  shows "sint k = uint k"
proof -
  have "sint k < 2 ^ 31"
    using sint_lt [of k] by simp
  with assms have "take_bit 32 (sint k) = sint k"
    by (intro take_bit_int_eq_self) auto
  moreover have "uint k = take_bit 32 (sint k)"
    using uint_sint [of k] by simp
  ultimately show ?thesis
    by simp
qed

lemma size_t_of_int_nonneg: "0 \<le> sint k \<Longrightarrow> size_t_of_int k = unat k"
proof -
  assume a: "0 \<le> sint k"
  have "uint k < 2 ^ 64"
    using uint_lt2p [of k] by simp
  then have "uint k mod 2 ^ 64 = uint k"
    by simp
  with a show ?thesis
    by (simp add: size_t_of_int_def sint_nonneg_uint)
qed

lemma unat_int_of_length_le: "unat (int_of_length n) \<le> n"
  by (simp add: int_of_length_def unat_of_nat)

lemma size_t_of_int_zero [simp]: "size_t_of_int 0 = 0"
  by (simp add: size_t_of_int_def)

lemma sint_int_of_length_nonneg: "n < 2 ^ 31 \<Longrightarrow> 0 \<le> sint (int_of_length n)"
  by (simp add: sint_int_of_length)

subsection \<open>One send, one receive\<close>

lemma TCPSocket_Send_frame:
  assumes "TCPSocket_Send sock data w = (ret, w')"
  shows "calls w' = calls w"
    and "ret = - 1 \<and> outbox w' = outbox w
         \<or> (\<exists>k. ret = int (length (take k data)) \<and> outbox w' = outbox w @ take k data)"
proof -
  show "calls w' = calls w"
    using assms by (auto simp: TCPSocket_Send_def split: if_splits list.splits io.splits)
  show "ret = - 1 \<and> outbox w' = outbox w
         \<or> (\<exists>k. ret = int (length (take k data)) \<and> outbox w' = outbox w @ take k data)"
  proof (cases "sockfd sock = - 1 \<or> closed w")
    case True
    with assms show ?thesis by (auto simp: TCPSocket_Send_def)
  next
    case False
    show ?thesis
    proof (cases "script w")
      case Nil
      with False assms have "ret = int (length (take (length data) data))"
        and "outbox w' = outbox w @ take (length data) data"
        by (auto simp: TCPSocket_Send_def)
      then show ?thesis by blast
    next
      case (Cons c rest)
      with False assms show ?thesis
        by (cases c) (auto simp: TCPSocket_Send_def)
    qed
  qed
qed

lemma TCPSocket_Send_steady:
  assumes "sockfd sock \<noteq> - 1" and "steady w" and "data \<noteq> []"
  shows "\<exists>k scr. 0 < k \<and> k \<le> length data
           \<and> TCPSocket_Send sock data w = (int k, w\<lparr>script := scr, outbox := outbox w @ take k data\<rparr>)
           \<and> list_all positive scr"
proof (cases "script w")
  case Nil
  with assms have "TCPSocket_Send sock data w
      = (int (length data), w\<lparr>script := [], outbox := outbox w @ take (length data) data\<rparr>)"
    by (simp add: TCPSocket_Send_def steady_def)
  with assms(3) show ?thesis
    by (intro exI [of _ "length data"] exI [of _ "[]"]) simp
next
  case (Cons c rest)
  with assms(2) obtain k where c: "c = Chunk k" and k: "0 < k" and rest: "list_all positive rest"
    by (cases c) (auto simp: steady_def)
  let ?l = "min k (length data)"
  have "take k data = take ?l data"
    by (simp add: min_def)
  with assms Cons c have "TCPSocket_Send sock data w
      = (int ?l, w\<lparr>script := rest, outbox := outbox w @ take ?l data\<rparr>)"
    by (simp add: TCPSocket_Send_def steady_def)
  moreover from k assms(3) have "0 < ?l" "?l \<le> length data"
    by (cases data; simp)+
  ultimately show ?thesis
    using rest by blast
qed

lemma TCPSocket_Recv_frame:
  assumes "TCPSocket_Recv sock sz w = ((ret, chunk), w')"
  shows "calls w' = calls w" and "outbox w' = outbox w"
  using assms by (auto simp: TCPSocket_Recv_def split: if_splits list.splits io.splits)

lemma TCPSocket_Recv_steady:
  assumes "sockfd sock \<noteq> - 1" and "steady w" and "0 < sz" and "inbox w \<noteq> []"
  shows "\<exists>k scr. 0 < k \<and> k \<le> sz \<and> k \<le> length (inbox w)
           \<and> TCPSocket_Recv sock sz w
               = ((int k, take k (inbox w)), w\<lparr>script := scr, inbox := drop k (inbox w)\<rparr>)
           \<and> list_all positive scr"
proof (cases "script w")
  case Nil
  let ?l = "min sz (length (inbox w))"
  have "take sz (inbox w) = take ?l (inbox w)" "drop sz (inbox w) = drop ?l (inbox w)"
    by (simp_all add: min_def)
  with assms Nil have "TCPSocket_Recv sock sz w
      = ((int ?l, take ?l (inbox w)), w\<lparr>script := [], inbox := drop ?l (inbox w)\<rparr>)"
    by (simp add: TCPSocket_Recv_def steady_def)
  moreover from assms(3,4) have "0 < ?l" "?l \<le> sz" "?l \<le> length (inbox w)"
    by (cases "inbox w"; simp)+
  ultimately show ?thesis
    by (intro exI [of _ ?l] exI [of _ "[]"]) simp
next
  case (Cons c rest)
  with assms(2) obtain k where c: "c = Chunk k" and k: "0 < k" and rest: "list_all positive rest"
    by (cases c) (auto simp: steady_def)
  let ?l = "min (min k sz) (length (inbox w))"
  have "take (min k sz) (inbox w) = take ?l (inbox w)"
    "drop (min k sz) (inbox w) = drop ?l (inbox w)"
    by (simp_all add: min_def)
  with assms Cons c have "TCPSocket_Recv sock sz w
      = ((int ?l, take ?l (inbox w)), w\<lparr>script := rest, inbox := drop ?l (inbox w)\<rparr>)"
    by (simp add: TCPSocket_Recv_def steady_def)
  moreover from k assms(3,4) have "0 < ?l" "?l \<le> sz" "?l \<le> length (inbox w)"
    by (cases "inbox w"; simp)+
  ultimately show ?thesis
    using rest by blast
qed

subsection \<open>The retry loops\<close>

lemma SendAll_loop_steady:
  "sockfd sock \<noteq> - 1 \<Longrightarrow> steady w \<Longrightarrow> ndone \<le> length buf \<Longrightarrow>
   \<exists>scr. SendAll_loop sock buf ndone w
           = (Inr (length buf), w\<lparr>script := scr, outbox := outbox w @ drop ndone buf\<rparr>)
         \<and> list_all positive scr"
proof (induction sock buf ndone w rule: SendAll_loop.induct)
  case (1 sock buf ndone w)
  show ?case
  proof (cases "ndone < length buf")
    case False
    with "1.prems" have "ndone = length buf" by simp
    with "1.prems" show ?thesis
      by (intro exI [of _ "script w"]) (simp add: steady_def SendAll_loop.simps [of sock buf "length buf" w])
  next
    case True
    then have "drop ndone buf \<noteq> []" by simp
    from TCPSocket_Send_steady [OF "1.prems"(1,2) this]
    obtain k scr where k: "0 < k" "k \<le> length (drop ndone buf)"
      and send: "TCPSocket_Send sock (drop ndone buf) w
                   = (int k, w\<lparr>script := scr, outbox := outbox w @ take k (drop ndone buf)\<rparr>)"
      and scr: "list_all positive scr"
      by blast
    let ?w1 = "w\<lparr>script := scr, outbox := outbox w @ take k (drop ndone buf)\<rparr>"
    have st: "steady ?w1"
      using "1.prems"(2) scr by (simp add: steady_def)
    have le: "ndone + nat (int k) \<le> length buf"
      using k by simp
    from "1.IH" [OF True send [symmetric] _ "1.prems"(1) st le]
    obtain scr' where rec: "SendAll_loop sock buf (ndone + k) ?w1
        = (Inr (length buf), ?w1\<lparr>script := scr', outbox := outbox ?w1 @ drop (ndone + k) buf\<rparr>)"
      and scr': "list_all positive scr'"
      by auto
    have "take k (drop ndone buf) @ drop k (drop ndone buf) = drop ndone buf"
      by (rule append_take_drop_id)
    then have "take k (drop ndone buf) @ drop (ndone + k) buf = drop ndone buf"
      by (simp add: add.commute)
    with rec send True have "SendAll_loop sock buf ndone w
        = (Inr (length buf), w\<lparr>script := scr', outbox := outbox w @ drop ndone buf\<rparr>)"
      by (simp add: SendAll_loop.simps [of sock buf ndone w])
    with scr' show ?thesis by blast
  qed
qed

lemma SendAll_loop_any:
  "SendAll_loop sock buf ndone w = (r, w') \<Longrightarrow> ndone \<le> length buf \<Longrightarrow>
   calls w' = calls w
   \<and> (\<exists>bs. outbox w' = outbox w @ bs \<and> prefix bs (drop ndone buf)
          \<and> (\<forall>n. r = Inr n \<longrightarrow> n = length buf \<and> bs = drop ndone buf))"
proof (induction sock buf ndone w rule: SendAll_loop.induct)
  case (1 sock buf ndone w)
  show ?case
  proof (cases "ndone < length buf")
    case False
    with "1.prems" show ?thesis
      by (auto simp: SendAll_loop.simps [of sock buf ndone w])
  next
    case True
    obtain ret w1 where send: "TCPSocket_Send sock (drop ndone buf) w = (ret, w1)"
      by (cases "TCPSocket_Send sock (drop ndone buf) w")
    note fr = TCPSocket_Send_frame [OF send]
    show ?thesis
    proof (cases "ret = - 1")
      case True
      with fr(2) have "outbox w1 = outbox w"
        by auto
      with \<open>ndone < length buf\<close> True send "1.prems"(1) fr(1) show ?thesis
        by (auto simp: SendAll_loop.simps [of sock buf ndone w])
    next
      case False
      with fr(2) obtain k where ret: "ret = int (length (take k (drop ndone buf)))"
        and out: "outbox w1 = outbox w @ take k (drop ndone buf)"
        by auto
      let ?l = "length (take k (drop ndone buf))"
      have le: "ndone + nat ret \<le> length buf"
        using ret True by simp
      have run: "SendAll_loop sock buf (ndone + nat ret) w1 = (r, w')"
        using "1.prems"(1) True send False by (simp add: SendAll_loop.simps [of sock buf ndone w])
      from "1.IH" [OF True send [symmetric] False run le]
      obtain bs where c: "calls w' = calls w1" and o: "outbox w' = outbox w1 @ bs"
        and p: "prefix bs (drop (ndone + ?l) buf)"
        and full: "\<forall>n. r = Inr n \<longrightarrow> n = length buf \<and> bs = drop (ndone + ?l) buf"
        using ret by auto
      have "take ?l (drop ndone buf) @ drop ?l (drop ndone buf) = drop ndone buf"
        by (rule append_take_drop_id)
      moreover have "take ?l (drop ndone buf) = take k (drop ndone buf)"
        by (simp add: min_def)
      ultimately have split: "take k (drop ndone buf) @ drop (ndone + ?l) buf = drop ndone buf"
        by (simp add: add.commute)
      from p have "prefix (take k (drop ndone buf) @ bs) (take k (drop ndone buf) @ drop (ndone + ?l) buf)"
        by simp
      then have "prefix (take k (drop ndone buf) @ bs) (drop ndone buf)"
        by (simp only: split)
      moreover have "\<forall>n. r = Inr n \<longrightarrow> n = length buf \<and> take k (drop ndone buf) @ bs = drop ndone buf"
        using full split by auto
      ultimately show ?thesis
        using c o out fr(1) by auto
    qed
  qed
qed

lemma RecvAll_loop_frame:
  "RecvAll_loop sock len acc w = (r, w') \<Longrightarrow> calls w' = calls w \<and> outbox w' = outbox w"
proof (induction sock len acc w rule: RecvAll_loop.induct)
  case (1 sock len acc w)
  show ?case
  proof (cases "length acc < len")
    case False
    with "1.prems" show ?thesis
      by (simp add: RecvAll_loop.simps [of sock len acc w])
  next
    case True
    obtain ret chunk w1 where recv: "TCPSocket_Recv sock (len - length acc) w = ((ret, chunk), w1)"
      by (cases "TCPSocket_Recv sock (len - length acc) w") auto
    note fr = TCPSocket_Recv_frame [OF recv]
    show ?thesis
    proof (cases "ret = - 1 \<or> ret = 0")
      case True
      with \<open>length acc < len\<close> recv "1.prems" fr show ?thesis
        by (auto simp: RecvAll_loop.simps [of sock len acc w])
    next
      case False
      then have run: "RecvAll_loop sock len (acc @ chunk) w1 = (r, w')"
        using "1.prems" True recv by (simp add: RecvAll_loop.simps [of sock len acc w])
      from "1.IH" [OF True recv [symmetric] refl _ _ run] False fr show ?thesis
        by simp
    qed
  qed
qed

lemma RecvAll_loop_steady:
  "sockfd sock \<noteq> - 1 \<Longrightarrow> steady w \<Longrightarrow> length acc \<le> len \<Longrightarrow> len - length acc \<le> length (inbox w) \<Longrightarrow>
   \<exists>scr. RecvAll_loop sock len acc w
           = (Inr (acc @ take (len - length acc) (inbox w)),
              w\<lparr>script := scr, inbox := drop (len - length acc) (inbox w)\<rparr>)
         \<and> list_all positive scr"
proof (induction sock len acc w rule: RecvAll_loop.induct)
  case (1 sock len acc w)
  show ?case
  proof (cases "length acc < len")
    case False
    with "1.prems" have "len - length acc = 0" by simp
    with False show ?thesis
      using "1.prems"(2)
      by (intro exI [of _ "script w"]) (simp add: steady_def RecvAll_loop.simps [of sock len acc w])
  next
    case True
    with "1.prems"(4) have ne: "inbox w \<noteq> []" and pos: "0 < len - length acc"
      by auto
    from TCPSocket_Recv_steady [OF "1.prems"(1,2) pos ne]
    obtain k scr where k: "0 < k" "k \<le> len - length acc" "k \<le> length (inbox w)"
      and recv: "TCPSocket_Recv sock (len - length acc) w
                   = ((int k, take k (inbox w)), w\<lparr>script := scr, inbox := drop k (inbox w)\<rparr>)"
      and scr: "list_all positive scr"
      by blast
    let ?w1 = "w\<lparr>script := scr, inbox := drop k (inbox w)\<rparr>"
    let ?acc1 = "acc @ take k (inbox w)"
    have st: "steady ?w1"
      using "1.prems"(2) scr by (simp add: steady_def)
    have len1: "length ?acc1 = length acc + k"
      using k by simp
    have le: "length ?acc1 \<le> len" "len - length ?acc1 \<le> length (inbox ?w1)"
      using k "1.prems"(4) by (simp_all add: len1)
    have nz: "int k \<noteq> - 1" "int k \<noteq> 0"
      using k by simp_all
    from "1.IH" [OF True recv [symmetric] refl nz "1.prems"(1) st le]
    obtain scr' where rec: "RecvAll_loop sock len ?acc1 ?w1
        = (Inr (?acc1 @ take (len - length ?acc1) (inbox ?w1)),
           ?w1\<lparr>script := scr', inbox := drop (len - length ?acc1) (inbox ?w1)\<rparr>)"
      and scr': "list_all positive scr'"
      by blast
    have a: "take k (inbox w) @ take (len - length ?acc1) (drop k (inbox w))
               = take (len - length acc) (inbox w)"
      using k by (simp add: len1 take_add [symmetric])
    have b: "drop (len - length ?acc1) (drop k (inbox w)) = drop (len - length acc) (inbox w)"
      using k by (simp add: len1 add.commute)
    from rec recv True nz a b have "RecvAll_loop sock len acc w
        = (Inr (acc @ take (len - length acc) (inbox w)),
           w\<lparr>script := scr', inbox := drop (len - length acc) (inbox w)\<rparr>)"
      by (simp add: RecvAll_loop.simps [of sock len acc w])
    with scr' show ?thesis by blast
  qed
qed

subsection \<open>The operations on a steady transport\<close>

lemma note_call_apply [simp]: "note_call c w = (Inr (), w\<lparr>calls := calls w @ [c]\<rparr>)"
  by (simp add: note_call_def)

lemma return_apply [simp]: "return x w = (Inr x, w)"
  by (simp add: return_def)

lemma throw_apply [simp]: "throw e w = (Inl e, w)"
  by (simp add: throw_def)

lemma SockAddr_init_ok:
  "resolves w \<Longrightarrow> SockAddr_init url port w
     = (Inr \<lparr>addr_host = url, addr_port = port\<rparr>, w\<lparr>calls := calls w @ [CSockAddr url port]\<rparr>)"
  by (simp add: SockAddr_init_def andThen_def)

lemma TCPSocket_Create_ok:
  "fresh_fd w \<noteq> - 1 \<Longrightarrow> TCPSocket_Create w
     = (Inr \<lparr>sockfd = fresh_fd w\<rparr>, w\<lparr>calls := calls w @ [CCreate]\<rparr>)"
  by (simp add: TCPSocket_Create_def andThen_def)

lemma TCPSocket_Connect_apply:
  "TCPSocket_Connect sock addr w = (Inr (reachable w), w\<lparr>calls := calls w @ [CConnect]\<rparr>)"
  by (simp add: TCPSocket_Connect_def andThen_def)

lemma TCPSocket_Close_ok:
  "sockfd sock \<noteq> - 1 \<Longrightarrow> \<not> closed w \<Longrightarrow> TCPSocket_Close sock w
     = (Inr (), w\<lparr>closed := True, calls := calls w @ [CClose]\<rparr>)"
  by (simp add: TCPSocket_Close_def andThen_def)

lemma InitRemoteSession_apply:
  "InitRemoteSession endpt init_seq w
     = ((case init_error w of None \<Rightarrow> Inr () | Some e \<Rightarrow> Inl e),
        w\<lparr>calls := calls w @ [CInitRemoteSession endpt init_seq]\<rparr>)"
  by (simp add: InitRemoteSession_def andThen_def split: option.splits)

lemma RPCEndpoint_dtor_sock:
  "RPCEndpoint_dtor (RPCEndpoint_Create (SockChannel sock) name remote_key) w
     = (Inr (), if sockfd sock = - 1 \<or> closed w then w
                else w\<lparr>closed := True, calls := calls w @ [CClose]\<rparr>)"
  by (simp add: RPCEndpoint_dtor_def RPCEndpoint_Create_def SockChannel_dtor_def
      try_catch_all_def andThen_def TCPSocket_BadSocket_def TCPSocket_Close_def)

lemma TCPSocket_SendAll_within:
  assumes "len \<le> length mem"
  shows "TCPSocket_SendAll sock mem len w
       = andThen (note_call (CSendAll (take len mem))) (\<lambda>_. SendAll_loop sock (take len mem) 0) w"
proof -
  let ?w1 = "w\<lparr>calls := calls w @ [CSendAll (take len mem)]\<rparr>"
  obtain r w' where run: "SendAll_loop sock (take len mem) 0 ?w1 = (r, w')"
    by (cases "SendAll_loop sock (take len mem) 0 ?w1")
  from SendAll_loop_any [OF run] have "\<forall>n. r = Inr n \<longrightarrow> n = length (take len mem)"
    by auto
  with assms have full: "\<forall>n. r = Inr n \<longrightarrow> \<not> n < len"
    by auto
  from assms have eq: "take len (mem @ beyond w) = take len mem"
    by simp
  from run full show ?thesis
    unfolding TCPSocket_SendAll_def Let_def eq
    by (cases r) (simp_all add: andThen_def)
qed

lemma TCPSocket_SendAll_steady:
  assumes "sockfd sock \<noteq> - 1" and "steady w" and "len \<le> length mem"
  shows "\<exists>scr. TCPSocket_SendAll sock mem len w
           = (Inr len, w\<lparr>script := scr, outbox := outbox w @ take len mem,
                         calls := calls w @ [CSendAll (take len mem)]\<rparr>)
         \<and> list_all positive scr"
proof -
  let ?w1 = "w\<lparr>calls := calls w @ [CSendAll (take len mem)]\<rparr>"
  have "steady ?w1"
    using assms(2) by (simp add: steady_def)
  from SendAll_loop_steady [OF assms(1) this, of 0 "take len mem"]
  obtain scr where "SendAll_loop sock (take len mem) 0 ?w1
      = (Inr (length (take len mem)), ?w1\<lparr>script := scr, outbox := outbox ?w1 @ take len mem\<rparr>)"
    and scr: "list_all positive scr"
    by auto
  with assms(3) have "TCPSocket_SendAll sock mem len w
      = (Inr len, w\<lparr>script := scr, outbox := outbox w @ take len mem,
                    calls := calls w @ [CSendAll (take len mem)]\<rparr>)"
    by (simp add: TCPSocket_SendAll_within andThen_def min_def)
  with scr show ?thesis by blast
qed

lemma TCPSocket_RecvAll_steady:
  assumes "sockfd sock \<noteq> - 1" and "steady w" and "len \<le> length (inbox w)"
  shows "\<exists>scr. TCPSocket_RecvAll sock len w
           = (Inr (take len (inbox w)),
              w\<lparr>script := scr, inbox := drop len (inbox w), calls := calls w @ [CRecvAll len]\<rparr>)
         \<and> list_all positive scr"
proof -
  let ?w1 = "w\<lparr>calls := calls w @ [CRecvAll len]\<rparr>"
  have "steady ?w1"
    using assms(2) by (simp add: steady_def)
  from RecvAll_loop_steady [OF assms(1) this, of "[]" len] assms(3)
  obtain scr where "RecvAll_loop sock len [] ?w1
      = (Inr (take len (inbox w)), ?w1\<lparr>script := scr, inbox := drop len (inbox w)\<rparr>)"
    and scr: "list_all positive scr"
    by auto
  then have "TCPSocket_RecvAll sock len w
      = (Inr (take len (inbox w)),
         w\<lparr>script := scr, inbox := drop len (inbox w), calls := calls w @ [CRecvAll len]\<rparr>)"
    by (simp add: TCPSocket_RecvAll_def andThen_def)
  with scr show ?thesis by blast
qed

lemma TCPSocket_SendAll_overrun:
  assumes "sockfd sock \<noteq> - 1" and "steady w" and "length (mem @ beyond w) < len"
  shows "\<exists>scr. TCPSocket_SendAll sock mem len w
           = (Inl (SocketError ''SendAll''),
              w\<lparr>script := scr, outbox := outbox w @ mem @ beyond w,
                calls := calls w @ [CSendAll (mem @ beyond w)]\<rparr>)
         \<and> list_all positive scr"
proof -
  let ?buf = "mem @ beyond w"
  let ?w1 = "w\<lparr>calls := calls w @ [CSendAll ?buf]\<rparr>"
  have "steady ?w1"
    using assms(2) by (simp add: steady_def)
  from SendAll_loop_steady [OF assms(1) this, of 0 ?buf]
  obtain scr where "SendAll_loop sock ?buf 0 ?w1
      = (Inr (length ?buf), ?w1\<lparr>script := scr, outbox := outbox ?w1 @ ?buf\<rparr>)"
    and scr: "list_all positive scr"
    by auto
  note loop = this
  from assms(3) have eq: "take len (mem @ beyond w) = ?buf"
    by simp
  from loop(1) assms(3) have "TCPSocket_SendAll sock mem len w
      = (Inl (SocketError ''SendAll''),
         w\<lparr>script := scr, outbox := outbox w @ mem @ beyond w,
           calls := calls w @ [CSendAll (mem @ beyond w)]\<rparr>)"
    unfolding TCPSocket_SendAll_def Let_def eq
    by (simp add: andThen_def)
  with scr show ?thesis by blast
qed

subsection \<open>The request on a steady transport\<close>

lemma take_c_str: "n \<le> length key \<Longrightarrow> take n (c_str key) = take n key"
  by (simp add: c_str_def)

lemma RPCConnect_request_head:
  assumes "connectable w" and "steady w"
  shows "\<exists>scr. RPCConnect_request P url port key w
           = andThen
               (if int_of_length (length key) \<noteq> 0 then
                  andThen (TCPSocket_SendAll \<lparr>sockfd = fresh_fd w\<rparr> (c_str key)
                             (size_t_of_int (int_of_length (length key)))) (\<lambda>n.
                    ICHECK_EQ n (size_t_of_int (int_of_length (length key)))
                      ''sock.SendAll(key.c_str(), keylen) == keylen'')
                else return ()) (\<lambda>_. return \<lparr>sockfd = fresh_fd w\<rparr>)
               (w\<lparr>script := scr,
                  outbox := outbox w @ int_bytes P (kRPCMagic P) @ int_bytes P (int_of_length (length key)),
                  calls := calls w @ [CSockAddr url port, CCreate, CConnect,
                    CSendAll (int_bytes P (kRPCMagic P)),
                    CSendAll (int_bytes P (int_of_length (length key)))]\<rparr>)
         \<and> list_all positive scr"
proof -
  let ?sock = "\<lparr>sockfd = fresh_fd w\<rparr>"
  let ?keylen = "int_of_length (length key)"
  have fd: "sockfd ?sock \<noteq> - 1"
    using assms(1) by (simp add: connectable_def)
  let ?w1 = "w\<lparr>calls := calls w @ [CSockAddr url port, CCreate, CConnect]\<rparr>"
  have st1: "steady ?w1"
    using assms(2) by (simp add: steady_def)
  from TCPSocket_SendAll_steady [OF fd st1, of 4 "int_bytes P (kRPCMagic P)"]
  obtain scr1 where s1: "TCPSocket_SendAll ?sock (int_bytes P (kRPCMagic P)) 4 ?w1
      = (Inr 4, ?w1\<lparr>script := scr1, outbox := outbox ?w1 @ int_bytes P (kRPCMagic P),
                      calls := calls ?w1 @ [CSendAll (int_bytes P (kRPCMagic P))]\<rparr>)"
    and scr1: "list_all positive scr1"
    by auto
  let ?w2 = "?w1\<lparr>script := scr1, outbox := outbox ?w1 @ int_bytes P (kRPCMagic P),
                  calls := calls ?w1 @ [CSendAll (int_bytes P (kRPCMagic P))]\<rparr>"
  have st2: "steady ?w2"
    using assms(2) scr1 by (simp add: steady_def)
  from TCPSocket_SendAll_steady [OF fd st2, of 4 "int_bytes P ?keylen"]
  obtain scr2 where s2: "TCPSocket_SendAll ?sock (int_bytes P ?keylen) 4 ?w2
      = (Inr 4, ?w2\<lparr>script := scr2, outbox := outbox ?w2 @ int_bytes P ?keylen,
                      calls := calls ?w2 @ [CSendAll (int_bytes P ?keylen)]\<rparr>)"
    and scr2: "list_all positive scr2"
    by auto
  let ?w3 = "?w2\<lparr>script := scr2, outbox := outbox ?w2 @ int_bytes P ?keylen,
                  calls := calls ?w2 @ [CSendAll (int_bytes P ?keylen)]\<rparr>"
  have "RPCConnect_request P url port key w =
      andThen
        (if ?keylen \<noteq> 0 then
           andThen (TCPSocket_SendAll ?sock (c_str key) (size_t_of_int ?keylen)) (\<lambda>n.
             ICHECK_EQ n (size_t_of_int ?keylen) ''sock.SendAll(key.c_str(), keylen) == keylen'')
         else return ()) (\<lambda>_. return ?sock) ?w3"
    using assms(1) s1 s2
    by (simp add: RPCConnect_request_def connectable_def SockAddr_init_ok TCPSocket_Create_ok
        TCPSocket_Connect_apply ICHECK_def ICHECK_EQ_def andThen_Inr)
  with scr2 show ?thesis
    by (intro exI [of _ scr2]) simp
qed

lemma RPCConnect_request_steady:
  assumes "connectable w" and "steady w" and "0 \<le> sint (int_of_length (length key))"
  shows "\<exists>scr. RPCConnect_request P url port key w
           = (Inr \<lparr>sockfd = fresh_fd w\<rparr>,
              w\<lparr>script := scr, outbox := outbox w @ request_bytes P key,
                calls := calls w @ request_calls P url port key\<rparr>)
         \<and> list_all positive scr"
proof -
  let ?sock = "\<lparr>sockfd = fresh_fd w\<rparr>"
  let ?keylen = "int_of_length (length key)"
  have fd: "sockfd ?sock \<noteq> - 1"
    using assms(1) by (simp add: connectable_def)
  let ?n = "size_t_of_int ?keylen"
  have n: "?n \<le> length key"
    using assms(3) unat_int_of_length_le [of "length key"] by (simp add: size_t_of_int_nonneg)
  from RPCConnect_request_head [OF assms(1,2), of P url port key]
  obtain scr2 where head: "RPCConnect_request P url port key w =
      andThen
        (if ?keylen \<noteq> 0 then
           andThen (TCPSocket_SendAll ?sock (c_str key) (size_t_of_int ?keylen)) (\<lambda>n.
             ICHECK_EQ n (size_t_of_int ?keylen) ''sock.SendAll(key.c_str(), keylen) == keylen'')
         else return ()) (\<lambda>_. return ?sock)
        (w\<lparr>script := scr2,
           outbox := outbox w @ int_bytes P (kRPCMagic P) @ int_bytes P ?keylen,
           calls := calls w @ [CSockAddr url port, CCreate, CConnect,
             CSendAll (int_bytes P (kRPCMagic P)), CSendAll (int_bytes P ?keylen)]\<rparr>)"
    and scr2: "list_all positive scr2"
    by blast
  let ?w3 = "w\<lparr>script := scr2,
           outbox := outbox w @ int_bytes P (kRPCMagic P) @ int_bytes P ?keylen,
           calls := calls w @ [CSockAddr url port, CCreate, CConnect,
             CSendAll (int_bytes P (kRPCMagic P)), CSendAll (int_bytes P ?keylen)]\<rparr>"
  have st3: "steady ?w3"
    using assms(2) scr2 by (simp add: steady_def)
  show ?thesis
  proof (cases "?keylen = 0")
    case True
    with head have "RPCConnect_request P url port key w = (Inr ?sock, ?w3)"
      by simp
    with True scr2 show ?thesis
      by (intro exI [of _ scr2]) (simp add: request_bytes_def request_calls_def)
  next
    case False
    have "?n \<le> length (c_str key)"
      using n by (simp add: c_str_def)
    from TCPSocket_SendAll_steady [OF fd st3 this] take_c_str [OF n]
    obtain scr3 where s3: "TCPSocket_SendAll ?sock (c_str key) ?n ?w3
        = (Inr ?n, ?w3\<lparr>script := scr3, outbox := outbox ?w3 @ take ?n key,
                        calls := calls ?w3 @ [CSendAll (take ?n key)]\<rparr>)"
      and scr3: "list_all positive scr3"
      by auto
    from head False s3 have "RPCConnect_request P url port key w
        = (Inr ?sock, ?w3\<lparr>script := scr3, outbox := outbox ?w3 @ take ?n key,
                           calls := calls ?w3 @ [CSendAll (take ?n key)]\<rparr>)"
      by (simp add: andThen_Inr ICHECK_EQ_def)
    with False scr3 show ?thesis
      by (intro exI [of _ scr3]) (simp add: request_bytes_def request_calls_def)
  qed
qed

lemma size_t_of_int_negative:
  assumes "sint k < 0"
  shows "2 ^ 63 \<le> size_t_of_int k"
proof -
  have "- (2 ^ 31) \<le> sint k"
    using sint_ge [of k] by simp
  then have low: "- (2 ^ 63) \<le> sint k"
    by simp
  have "sint k mod 2 ^ 64 = (sint k + 2 ^ 64) mod 2 ^ 64"
    by simp
  also have "\<dots> = sint k + 2 ^ 64"
    using assms low by (intro mod_pos_pos_trivial) simp_all
  finally have "size_t_of_int k = nat (sint k + 2 ^ 64)"
    by (simp add: size_t_of_int_def)
  with low show ?thesis
    by simp
qed

lemma RPCConnect_overrun:
  assumes "connectable w" and "steady w" and neg: "sint (int_of_length (length key)) < 0"
    and room: "length (c_str key @ beyond w) < 2 ^ 63"
  shows "\<exists>scr. RPCConnect P url port key enable_logging init_seq w
           = (Inl (SocketError ''SendAll''),
              w\<lparr>script := scr,
                outbox := outbox w @ int_bytes P (kRPCMagic P)
                  @ int_bytes P (int_of_length (length key)) @ c_str key @ beyond w,
                calls := calls w @ [CSockAddr url port, CCreate, CConnect,
                  CSendAll (int_bytes P (kRPCMagic P)),
                  CSendAll (int_bytes P (int_of_length (length key))),
                  CSendAll (c_str key @ beyond w)]\<rparr>)"
proof -
  let ?sock = "\<lparr>sockfd = fresh_fd w\<rparr>"
  let ?keylen = "int_of_length (length key)"
  let ?n = "size_t_of_int ?keylen"
  have fd: "sockfd ?sock \<noteq> - 1"
    using assms(1) by (simp add: connectable_def)
  from neg have nz: "?keylen \<noteq> 0"
    by auto
  from RPCConnect_request_head [OF assms(1,2), of P url port key]
  obtain scr2 where head: "RPCConnect_request P url port key w =
      andThen
        (if ?keylen \<noteq> 0 then
           andThen (TCPSocket_SendAll ?sock (c_str key) (size_t_of_int ?keylen)) (\<lambda>n.
             ICHECK_EQ n (size_t_of_int ?keylen) ''sock.SendAll(key.c_str(), keylen) == keylen'')
         else return ()) (\<lambda>_. return ?sock)
        (w\<lparr>script := scr2,
           outbox := outbox w @ int_bytes P (kRPCMagic P) @ int_bytes P ?keylen,
           calls := calls w @ [CSockAddr url port, CCreate, CConnect,
             CSendAll (int_bytes P (kRPCMagic P)), CSendAll (int_bytes P ?keylen)]\<rparr>)"
    and scr2: "list_all positive scr2"
    by blast
  let ?w3 = "w\<lparr>script := scr2,
           outbox := outbox w @ int_bytes P (kRPCMagic P) @ int_bytes P ?keylen,
           calls := calls w @ [CSockAddr url port, CCreate, CConnect,
             CSendAll (int_bytes P (kRPCMagic P)), CSendAll (int_bytes P ?keylen)]\<rparr>"
  have st3: "steady ?w3"
    using assms(2) scr2 by (simp add: steady_def)
  have "length (c_str key @ beyond ?w3) < ?n"
    using room size_t_of_int_negative [OF neg] by simp
  from TCPSocket_SendAll_overrun [OF fd st3 this]
  obtain scr3 where s3: "TCPSocket_SendAll ?sock (c_str key) ?n ?w3
      = (Inl (SocketError ''SendAll''),
         ?w3\<lparr>script := scr3, outbox := outbox ?w3 @ c_str key @ beyond ?w3,
              calls := calls ?w3 @ [CSendAll (c_str key @ beyond ?w3)]\<rparr>)"
    by blast
  from head nz s3 have "RPCConnect_request P url port key w
      = (Inl (SocketError ''SendAll''),
         ?w3\<lparr>script := scr3, outbox := outbox ?w3 @ c_str key @ beyond ?w3,
              calls := calls ?w3 @ [CSendAll (c_str key @ beyond ?w3)]\<rparr>)"
    by (simp add: andThen_Inl)
  then show ?thesis
    by (intro exI [of _ scr3]) (simp add: RPCConnect_halves andThen_Inl)
qed

subsection \<open>The response on a steady transport\<close>

lemma RPCConnect_reject_magic: "RPCConnect_reject P url port key sock (kRPCMagic P) = return ()"
  by (simp add: RPCConnect_reject_def)

lemma RPCConnect_reject_other:
  assumes "code \<noteq> kRPCMagic P" and "sockfd sock \<noteq> - 1" and "\<not> closed w"
  shows "RPCConnect_reject P url port key sock code w
     = (Inl (Fatal (failure_message url port key (failure_of_code P code))),
        w\<lparr>closed := True, calls := calls w @ [CClose]\<rparr>)"
  using assms
  by (simp add: RPCConnect_reject_def andThen_def TCPSocket_Close_ok failure_message_def
      failure_of_code_def)

lemma failure_message_inj: "inj (failure_message url port key)"
proof (rule injI)
  fix a b
  assume "failure_message url port key a = failure_message url port key b"
  then show "a = b"
    by (cases a; cases b) (simp_all add: failure_message_def)
qed

lemma RPCConnect_remote_key_steady:
  assumes fd: "sockfd sock \<noteq> - 1" and st: "steady w" and len: "length rk < 2 ^ 31"
    and inb: "inbox w = int_bytes P (int_of_length (length rk)) @ rk @ rest"
  shows "\<exists>scr. RPCConnect_remote_key P sock w
           = (Inr rk, w\<lparr>script := scr, inbox := rest,
                        calls := calls w @ CRecvAll 4 # (if rk = [] then [] else [CRecvAll (length rk)])\<rparr>)
         \<and> list_all positive scr"
proof -
  let ?keylen = "int_of_length (length rk)"
  have sz: "size_t_of_int ?keylen = length rk"
    using len by (rule size_t_of_int_length)
  have zero: "?keylen = 0 \<longleftrightarrow> rk = []"
    using len int_of_length_eq_0 [of "length rk"] by simp
  have "4 \<le> length (inbox w)"
    by (simp add: inb)
  from TCPSocket_RecvAll_steady [OF fd st this]
  obtain scr1 where r1: "TCPSocket_RecvAll sock 4 w
      = (Inr (int_bytes P ?keylen), w\<lparr>script := scr1, inbox := rk @ rest, calls := calls w @ [CRecvAll 4]\<rparr>)"
    and scr1: "list_all positive scr1"
    by (auto simp: inb)
  let ?w1 = "w\<lparr>script := scr1, inbox := rk @ rest, calls := calls w @ [CRecvAll 4]\<rparr>"
  have st1: "steady ?w1"
    using st scr1 by (simp add: steady_def)
  show ?thesis
  proof (cases "rk = []")
    case True
    with r1 zero have "RPCConnect_remote_key P sock w = (Inr rk, ?w1)"
      by (simp add: RPCConnect_remote_key_def andThen_Inr ICHECK_EQ_def)
    with True scr1 show ?thesis
      by (intro exI [of _ scr1]) simp
  next
    case False
    have "length rk \<le> length (inbox ?w1)"
      by simp
    from TCPSocket_RecvAll_steady [OF fd st1 this]
    obtain scr2 where r2: "TCPSocket_RecvAll sock (length rk) ?w1
        = (Inr rk, ?w1\<lparr>script := scr2, inbox := rest, calls := calls ?w1 @ [CRecvAll (length rk)]\<rparr>)"
      and scr2: "list_all positive scr2"
      by auto
    have "length rk \<le> 2 ^ 63 - 1"
      using len by simp
    with r1 r2 False zero sz have "RPCConnect_remote_key P sock w
        = (Inr rk, ?w1\<lparr>script := scr2, inbox := rest, calls := calls ?w1 @ [CRecvAll (length rk)]\<rparr>)"
      by (simp add: RPCConnect_remote_key_def andThen_Inr ICHECK_EQ_def string_resize_def)
    with False scr2 show ?thesis
      by (intro exI [of _ scr2]) simp
  qed
qed

lemma RPCConnect_accepted:
  assumes "connectable w" and "steady w" and "0 \<le> sint (int_of_length (length key))"
    and "length rk < 2 ^ 31"
    and inb: "inbox w = int_bytes P (kRPCMagic P) @ int_bytes P (int_of_length (length rk)) @ rk @ rest"
  shows "\<exists>scr W. W = w\<lparr>script := scr, inbox := rest, outbox := outbox w @ request_bytes P key,
                calls := calls w @ request_calls P url port key
                  @ [CRecvAll 4, CRecvAll 4] @ (if rk = [] then [] else [CRecvAll (length rk)])
                  @ [CInitRemoteSession
                       (RPCEndpoint_Create (SockChannel \<lparr>sockfd = fresh_fd w\<rparr>) key rk) init_seq]\<rparr>
         \<and> RPCConnect P url port key enable_logging init_seq w
           = (case init_error w of
                None \<Rightarrow> (Inr (RPCEndpoint_Create (SockChannel \<lparr>sockfd = fresh_fd w\<rparr>) key rk), W)
              | Some e \<Rightarrow> (Inl e, W\<lparr>closed := True, calls := calls W @ [CClose]\<rparr>))
         \<and> list_all positive scr"
proof -
  let ?sock = "\<lparr>sockfd = fresh_fd w\<rparr>"
  let ?ep = "RPCEndpoint_Create (SockChannel ?sock) key rk"
  have fd: "sockfd ?sock \<noteq> - 1"
    using assms(1) by (simp add: connectable_def)
  from RPCConnect_request_steady [OF assms(1-3), of P url port]
  obtain scr0 where req: "RPCConnect_request P url port key w
      = (Inr ?sock, w\<lparr>script := scr0, outbox := outbox w @ request_bytes P key,
                      calls := calls w @ request_calls P url port key\<rparr>)"
    and scr0: "list_all positive scr0"
    by blast
  let ?w0 = "w\<lparr>script := scr0, outbox := outbox w @ request_bytes P key,
               calls := calls w @ request_calls P url port key\<rparr>"
  have st0: "steady ?w0"
    using assms(2) scr0 by (simp add: steady_def)
  have "4 \<le> length (inbox ?w0)"
    by (simp add: inb)
  from TCPSocket_RecvAll_steady [OF fd st0 this]
  obtain scr1 where r1: "TCPSocket_RecvAll ?sock 4 ?w0
      = (Inr (int_bytes P (kRPCMagic P)),
         ?w0\<lparr>script := scr1, inbox := int_bytes P (int_of_length (length rk)) @ rk @ rest,
              calls := calls ?w0 @ [CRecvAll 4]\<rparr>)"
    and scr1: "list_all positive scr1"
    by (auto simp: inb)
  let ?w1 = "?w0\<lparr>script := scr1, inbox := int_bytes P (int_of_length (length rk)) @ rk @ rest,
                  calls := calls ?w0 @ [CRecvAll 4]\<rparr>"
  have st1: "steady ?w1"
    using assms(2) scr1 by (simp add: steady_def)
  have inb1: "inbox ?w1 = int_bytes P (int_of_length (length rk)) @ rk @ rest"
    by simp
  from RPCConnect_remote_key_steady [OF fd st1 assms(4) inb1]
  obtain scr2 where r2: "RPCConnect_remote_key P ?sock ?w1
      = (Inr rk, ?w1\<lparr>script := scr2, inbox := rest,
                      calls := calls ?w1 @ CRecvAll 4 # (if rk = [] then [] else [CRecvAll (length rk)])\<rparr>)"
    and scr2: "list_all positive scr2"
    by blast
  let ?w2 = "?w1\<lparr>script := scr2, inbox := rest,
                  calls := calls ?w1 @ CRecvAll 4 # (if rk = [] then [] else [CRecvAll (length rk)])\<rparr>"
  let ?W = "?w2\<lparr>calls := calls ?w2 @ [CInitRemoteSession ?ep init_seq]\<rparr>"
  have open2: "\<not> closed ?W"
    using assms(2) by (simp add: steady_def)
  have "RPCConnect_response P url port key init_seq ?sock ?w0
      = on_unwind (RPCEndpoint_dtor ?ep)
          (andThen (InitRemoteSession ?ep init_seq) (\<lambda>_. return ?ep)) ?w2"
    using r1 r2
    by (simp add: RPCConnect_response_def andThen_Inr ICHECK_EQ_def RPCConnect_reject_magic)
  also have "\<dots> = (case init_error w of
        None \<Rightarrow> (Inr ?ep, ?W)
      | Some e \<Rightarrow> (Inl e, ?W\<lparr>closed := True, calls := calls ?W @ [CClose]\<rparr>))"
    using fd open2
    by (simp add: on_unwind_def andThen_def InitRemoteSession_apply RPCEndpoint_dtor_sock
        split: option.splits)
  finally have "RPCConnect P url port key enable_logging init_seq w
      = (case init_error w of
           None \<Rightarrow> (Inr ?ep, ?W)
         | Some e \<Rightarrow> (Inl e, ?W\<lparr>closed := True, calls := calls ?W @ [CClose]\<rparr>))"
    using req by (simp add: RPCConnect_halves andThen_Inr)
  with scr2 show ?thesis
    by (intro exI [of _ scr2] exI [of _ ?W]) (simp split: option.splits)
qed

lemma RPCConnect_refused:
  assumes "connectable w" and "steady w" and "0 \<le> sint (int_of_length (length key))"
    and inb: "inbox w = buf @ rest" and buf: "length buf = 4"
    and code: "bytes_int P buf \<noteq> kRPCMagic P"
  shows "\<exists>scr. RPCConnect P url port key enable_logging init_seq w
           = (Inl (Fatal (failure_message url port key (failure_of_code P (bytes_int P buf)))),
              w\<lparr>script := scr, inbox := rest, outbox := outbox w @ request_bytes P key,
                closed := True,
                calls := calls w @ request_calls P url port key @ [CRecvAll 4, CClose]\<rparr>)
         \<and> list_all positive scr"
proof -
  let ?sock = "\<lparr>sockfd = fresh_fd w\<rparr>"
  have fd: "sockfd ?sock \<noteq> - 1"
    using assms(1) by (simp add: connectable_def)
  from RPCConnect_request_steady [OF assms(1-3), of P url port]
  obtain scr0 where req: "RPCConnect_request P url port key w
      = (Inr ?sock, w\<lparr>script := scr0, outbox := outbox w @ request_bytes P key,
                      calls := calls w @ request_calls P url port key\<rparr>)"
    and scr0: "list_all positive scr0"
    by blast
  let ?w0 = "w\<lparr>script := scr0, outbox := outbox w @ request_bytes P key,
               calls := calls w @ request_calls P url port key\<rparr>"
  have st0: "steady ?w0"
    using assms(2) scr0 by (simp add: steady_def)
  have "4 \<le> length (inbox ?w0)"
    by (simp add: inb buf)
  from TCPSocket_RecvAll_steady [OF fd st0 this]
  obtain scr1 where r1: "TCPSocket_RecvAll ?sock 4 ?w0
      = (Inr buf, ?w0\<lparr>script := scr1, inbox := rest, calls := calls ?w0 @ [CRecvAll 4]\<rparr>)"
    and scr1: "list_all positive scr1"
    by (auto simp: inb buf)
  let ?w1 = "?w0\<lparr>script := scr1, inbox := rest, calls := calls ?w0 @ [CRecvAll 4]\<rparr>"
  have open1: "\<not> closed ?w1"
    using assms(2) by (simp add: steady_def)
  note rej = RPCConnect_reject_other [OF code fd open1, of url port key]
  have "RPCConnect_response P url port key init_seq ?sock ?w0
      = (Inl (Fatal (failure_message url port key (failure_of_code P (bytes_int P buf)))),
         ?w1\<lparr>closed := True, calls := calls ?w1 @ [CClose]\<rparr>)"
    using r1 rej buf
    by (simp add: RPCConnect_response_def andThen_Inr andThen_Inl ICHECK_EQ_def)
  with req scr1 show ?thesis
    by (intro exI [of _ scr1]) (simp add: RPCConnect_halves andThen_Inr)
qed

subsection \<open>What every run of the request sends\<close>

lemma follows_andThen:
  assumes m: "follows m cs bs" and f: "\<And>x. follows (f x) cs' bs'"
  shows "follows (andThen m f) (cs @ cs') (bs @ bs')"
  unfolding follows_def
proof
  fix w
  obtain r w1 where mw: "m w = (r, w1)"
    by (cases "m w")
  show "case andThen m f w of
          (Inr x, w') \<Rightarrow> calls w' = calls w @ cs @ cs' \<and> outbox w' = outbox w @ bs @ bs'
        | (Inl e, w') \<Rightarrow>
            (\<exists>pre b. calls w' = calls w @ pre \<and> prefix pre (cs @ cs')
                   \<and> outbox w' = outbox w @ b \<and> prefix b (bs @ bs'))"
  proof (cases r)
    case (Inl e)
    with m mw obtain pre b where "calls w1 = calls w @ pre" "prefix pre cs"
      "outbox w1 = outbox w @ b" "prefix b bs"
      by (auto simp: follows_def dest!: spec [of _ w])
    then have "\<exists>pre b. calls w1 = calls w @ pre \<and> prefix pre (cs @ cs')
                   \<and> outbox w1 = outbox w @ b \<and> prefix b (bs @ bs')"
      using prefix_order.trans [OF _ prefixI [OF refl, of cs cs']]
        prefix_order.trans [OF _ prefixI [OF refl, of bs bs']] by blast
    with mw Inl show ?thesis
      by (simp add: andThen_def)
  next
    case (Inr x)
    with m mw have one: "calls w1 = calls w @ cs" "outbox w1 = outbox w @ bs"
      by (auto simp: follows_def dest!: spec [of _ w])
    obtain r2 w2 where fw: "f x w1 = (r2, w2)"
      by (cases "f x w1")
    show ?thesis
    proof (cases r2)
      case (Inl e)
      with f [of x] fw obtain pre b where "calls w2 = calls w1 @ pre" "prefix pre cs'"
        "outbox w2 = outbox w1 @ b" "prefix b bs'"
        by (auto simp: follows_def dest!: spec [of _ w1])
      with one have "calls w2 = calls w @ (cs @ pre) \<and> prefix (cs @ pre) (cs @ cs')
          \<and> outbox w2 = outbox w @ (bs @ b) \<and> prefix (bs @ b) (bs @ bs')"
        by simp
      then have "\<exists>pre b. calls w2 = calls w @ pre \<and> prefix pre (cs @ cs')
                   \<and> outbox w2 = outbox w @ b \<and> prefix b (bs @ bs')"
        by blast
      with mw \<open>r = Inr x\<close> fw Inl show ?thesis
        by (simp add: andThen_def)
    next
      case (Inr y)
      with f [of x] fw have "calls w2 = calls w1 @ cs'" "outbox w2 = outbox w1 @ bs'"
        by (auto simp: follows_def dest!: spec [of _ w1])
      with one mw \<open>r = Inr x\<close> fw Inr show ?thesis
        by (simp add: andThen_def)
    qed
  qed
qed

lemma follows_return: "follows (return x) [] []"
  by (simp add: follows_def)

lemma follows_throw: "follows (throw e) cs bs"
  by (simp add: follows_def)

lemma follows_ICHECK: "follows (ICHECK ok msg) [] []"
  by (simp add: follows_def ICHECK_def)

lemma follows_ICHECK_EQ: "follows (ICHECK_EQ a b msg) [] []"
  by (simp add: follows_def ICHECK_EQ_def)

lemma follows_SockAddr_init: "follows (SockAddr_init url port) [CSockAddr url port] []"
  by (simp add: follows_def SockAddr_init_def andThen_def)

lemma follows_Create: "follows TCPSocket_Create [CCreate] []"
  by (simp add: follows_def TCPSocket_Create_def andThen_def)

lemma follows_Connect: "follows (TCPSocket_Connect sock addr) [CConnect] []"
  by (simp add: follows_def TCPSocket_Connect_def andThen_def)

lemma follows_SendAll:
  assumes "len \<le> length mem"
  shows "follows (TCPSocket_SendAll sock mem len) [CSendAll (take len mem)] (take len mem)"
  unfolding follows_def
proof
  fix w :: world
  let ?w1 = "w\<lparr>calls := calls w @ [CSendAll (take len mem)]\<rparr>"
  obtain r w' where run: "SendAll_loop sock (take len mem) 0 ?w1 = (r, w')"
    by (cases "SendAll_loop sock (take len mem) 0 ?w1")
  from SendAll_loop_any [OF run]
  obtain bs where c: "calls w' = calls w @ [CSendAll (take len mem)]"
    and o: "outbox w' = outbox w @ bs" and p: "prefix bs (take len mem)"
    and full: "\<forall>n. r = Inr n \<longrightarrow> bs = take len mem"
    by auto
  have all: "TCPSocket_SendAll sock mem len w = (r, w')"
    using run by (simp add: TCPSocket_SendAll_within [OF assms] andThen_def)
  show "case TCPSocket_SendAll sock mem len w of
          (Inr x, w') \<Rightarrow> calls w' = calls w @ [CSendAll (take len mem)]
                          \<and> outbox w' = outbox w @ take len mem
        | (Inl e, w') \<Rightarrow>
            (\<exists>pre b. calls w' = calls w @ pre \<and> prefix pre [CSendAll (take len mem)]
                   \<and> outbox w' = outbox w @ b \<and> prefix b (take len mem))"
  proof (cases r)
    case (Inl e)
    from c o p have "\<exists>pre b. calls w' = calls w @ pre \<and> prefix pre [CSendAll (take len mem)]
                   \<and> outbox w' = outbox w @ b \<and> prefix b (take len mem)"
      by blast
    with all Inl show ?thesis by simp
  next
    case (Inr n)
    with all c o full show ?thesis by simp
  qed
qed

lemma follows_SendAll_key:
  assumes "0 \<le> sint (int_of_length (length key))"
  shows "follows (TCPSocket_SendAll sock (c_str key) (size_t_of_int (int_of_length (length key))))
     [CSendAll (take (size_t_of_int (int_of_length (length key))) key)]
     (take (size_t_of_int (int_of_length (length key))) key)"
proof -
  have n: "size_t_of_int (int_of_length (length key)) \<le> length key"
    using assms unat_int_of_length_le [of "length key"] by (simp add: size_t_of_int_nonneg)
  then have "size_t_of_int (int_of_length (length key)) \<le> length (c_str key)"
    by (simp add: c_str_def)
  from follows_SendAll [OF this] take_c_str [OF n] show ?thesis
    by simp
qed

lemma follows_request:
  assumes "0 \<le> sint (int_of_length (length key))"
  shows "follows (RPCConnect_request P url port key) (request_calls P url port key) (request_bytes P key)"
proof -
  let ?keylen = "int_of_length (length key)"
  let ?n = "size_t_of_int ?keylen"
  have key: "follows
      (if ?keylen \<noteq> 0 then
         andThen (TCPSocket_SendAll sock (c_str key) ?n) (\<lambda>n.
           ICHECK_EQ n ?n ''sock.SendAll(key.c_str(), keylen) == keylen'')
       else return ())
      (if ?keylen \<noteq> 0 then [CSendAll (take ?n key)] else []) (take ?n key)" for sock
  proof (cases "?keylen = 0")
    case True
    then show ?thesis by (simp add: follows_return)
  next
    case False
    from follows_andThen [OF follows_SendAll_key [OF assms] follows_ICHECK_EQ] False show ?thesis
      by simp
  qed
  have m4: "length (int_bytes P x) \<le> length (int_bytes P x)" "take 4 (int_bytes P x) = int_bytes P x" for x
    by simp_all
  note send4 = follows_SendAll [of 4 "int_bytes P x" for x, simplified]
  have "follows (RPCConnect_request P url port key)
      ([CSockAddr url port] @ [CCreate] @ [CConnect] @ [] @ [CSendAll (int_bytes P (kRPCMagic P))]
        @ [] @ [CSendAll (int_bytes P ?keylen)] @ []
        @ (if ?keylen \<noteq> 0 then [CSendAll (take ?n key)] else []) @ [])
      ([] @ [] @ [] @ [] @ int_bytes P (kRPCMagic P) @ [] @ int_bytes P ?keylen @ []
        @ take ?n key @ [])"
    unfolding RPCConnect_request_def
    by (intro follows_andThen follows_SockAddr_init follows_Create follows_Connect follows_ICHECK
        follows_ICHECK_EQ send4 key follows_return)
  then show ?thesis
    by (simp add: request_calls_def request_bytes_def)
qed

subsection \<open>What every run of the response sends\<close>

lemma hears_andThen:
  assumes m: "hears m" and f: "\<And>x. hears (f x)"
  shows "hears (andThen m f)"
  unfolding hears_def
proof
  fix w
  obtain r w1 where mw: "m w = (r, w1)"
    by (cases "m w")
  with m obtain cs where one: "outbox w1 = outbox w" "calls w1 = calls w @ cs" "\<not> list_ex is_send cs"
    by (auto simp: hears_def dest!: spec [of _ w])
  show "case andThen m f w of
          (r, w') \<Rightarrow> outbox w' = outbox w \<and> (\<exists>cs. calls w' = calls w @ cs \<and> \<not> list_ex is_send cs)"
  proof (cases r)
    case (Inl e)
    with mw one show ?thesis
      by (auto simp: andThen_def)
  next
    case (Inr x)
    obtain r2 w2 where fw: "f x w1 = (r2, w2)"
      by (cases "f x w1")
    with f [of x] obtain cs' where two: "outbox w2 = outbox w1" "calls w2 = calls w1 @ cs'"
      "\<not> list_ex is_send cs'"
      by (auto simp: hears_def dest!: spec [of _ w1])
    with one have "calls w2 = calls w @ (cs @ cs')" "\<not> list_ex is_send (cs @ cs')"
      by simp_all
    then have "\<exists>cs. calls w2 = calls w @ cs \<and> \<not> list_ex is_send cs"
      by blast
    with mw Inr fw one two show ?thesis
      by (simp add: andThen_def)
  qed
qed

lemma hears_return: "hears (return x)"
  by (simp add: hears_def)

lemma hears_throw: "hears (throw e)"
  by (simp add: hears_def)

lemma hears_if: "hears m \<Longrightarrow> hears n \<Longrightarrow> hears (if b then m else n)"
  by simp

lemma hears_ICHECK_EQ: "hears (ICHECK_EQ a b msg)"
  by (simp add: hears_def ICHECK_EQ_def)

lemma hears_string_resize: "hears (string_resize n)"
  by (simp add: hears_def string_resize_def)

lemma hears_Close: "hears (TCPSocket_Close sock)"
  by (simp add: hears_def TCPSocket_Close_def andThen_def)

lemma hears_InitRemoteSession: "hears (InitRemoteSession endpt init_seq)"
  by (simp add: hears_def InitRemoteSession_apply)

lemma hears_dtor: "hears (RPCEndpoint_dtor endpt)"
proof -
  have "\<exists>cs. calls w @ [CClose] = calls w @ cs \<and> \<not> list_ex is_send cs" for w :: world
    by (intro exI [of _ "[CClose]"]) simp
  then show ?thesis
    by (simp add: hears_def RPCEndpoint_dtor_def SockChannel_dtor_def try_catch_all_def
        andThen_def TCPSocket_BadSocket_def TCPSocket_Close_def split: RPCChannel.splits)
qed

lemma hears_on_unwind:
  assumes d: "hears d" and m: "hears m"
  shows "hears (on_unwind d m)"
  unfolding hears_def
proof
  fix w
  obtain r w1 where mw: "m w = (r, w1)"
    by (cases "m w")
  with m obtain cs where one: "outbox w1 = outbox w" "calls w1 = calls w @ cs" "\<not> list_ex is_send cs"
    by (auto simp: hears_def dest!: spec [of _ w])
  show "case on_unwind d m w of
          (r, w') \<Rightarrow> outbox w' = outbox w \<and> (\<exists>cs. calls w' = calls w @ cs \<and> \<not> list_ex is_send cs)"
  proof (cases r)
    case (Inr x)
    with mw one show ?thesis
      by (auto simp: on_unwind_def)
  next
    case (Inl e)
    obtain r2 w2 where dw: "d w1 = (r2, w2)"
      by (cases "d w1")
    with d obtain cs' where two: "outbox w2 = outbox w1" "calls w2 = calls w1 @ cs'"
      "\<not> list_ex is_send cs'"
      by (auto simp: hears_def dest!: spec [of _ w1])
    with one have "calls w2 = calls w @ (cs @ cs')" "\<not> list_ex is_send (cs @ cs')"
      by simp_all
    then have "\<exists>cs. calls w2 = calls w @ cs \<and> \<not> list_ex is_send cs"
      by blast
    with mw Inl dw one two show ?thesis
      by (simp add: on_unwind_def)
  qed
qed

lemma TCPSocket_RecvAll_frame:
  assumes "TCPSocket_RecvAll sock len w = (r, w')"
  shows "calls w' = calls w @ [CRecvAll len]" and "outbox w' = outbox w"
proof -
  from assms have "RecvAll_loop sock len [] (w\<lparr>calls := calls w @ [CRecvAll len]\<rparr>) = (r, w')"
    by (simp add: TCPSocket_RecvAll_def andThen_def)
  from RecvAll_loop_frame [OF this]
  show "calls w' = calls w @ [CRecvAll len]" and "outbox w' = outbox w"
    by simp_all
qed

lemma hears_RecvAll: "hears (TCPSocket_RecvAll sock len)"
  unfolding hears_def
proof
  fix w
  obtain r w' where run: "TCPSocket_RecvAll sock len w = (r, w')"
    by (cases "TCPSocket_RecvAll sock len w")
  from TCPSocket_RecvAll_frame [OF run]
  have "outbox w' = outbox w" "calls w' = calls w @ [CRecvAll len]" "\<not> list_ex is_send [CRecvAll len]"
    by simp_all
  then have "outbox w' = outbox w \<and> (\<exists>cs. calls w' = calls w @ cs \<and> \<not> list_ex is_send cs)"
    by blast
  with run show "case TCPSocket_RecvAll sock len w of
      (r, w') \<Rightarrow> outbox w' = outbox w \<and> (\<exists>cs. calls w' = calls w @ cs \<and> \<not> list_ex is_send cs)"
    by simp
qed

lemma hears_reject: "hears (RPCConnect_reject P url port key sock code)"
  unfolding RPCConnect_reject_def
  by (intro hears_if hears_andThen hears_Close hears_throw hears_return)

lemma hears_remote_key: "hears (RPCConnect_remote_key P sock)"
  unfolding RPCConnect_remote_key_def
  by (intro hears_if hears_andThen hears_RecvAll hears_ICHECK_EQ hears_string_resize hears_return)

lemma response_shape:
  assumes "RPCConnect_response P url port key init_seq sock w = (r, w')"
  shows "outbox w' = outbox w
       \<and> (\<exists>rest. calls w' = calls w @ CRecvAll 4 # rest \<and> \<not> list_ex is_send rest)"
proof -
  define K where "K = (\<lambda>buf.
     andThen (ICHECK_EQ (length buf) 4 ''sock.RecvAll(&code, sizeof(code)) == sizeof(code)'') (\<lambda>_.
     andThen (RPCConnect_reject P url port key sock (bytes_int P buf)) (\<lambda>_.
     andThen (RPCConnect_remote_key P sock) (\<lambda>remote_key.
     on_unwind (RPCEndpoint_dtor (RPCEndpoint_Create (SockChannel sock) key remote_key))
       (andThen (InitRemoteSession (RPCEndpoint_Create (SockChannel sock) key remote_key) init_seq) (\<lambda>_.
        return (RPCEndpoint_Create (SockChannel sock) key remote_key)))))))"
  have K: "hears (K buf)" for buf
    unfolding K_def
    by (intro hears_andThen hears_on_unwind hears_dtor hears_ICHECK_EQ hears_reject
        hears_remote_key hears_InitRemoteSession hears_return)
  have resp: "RPCConnect_response P url port key init_seq sock = andThen (TCPSocket_RecvAll sock 4) K"
    by (simp add: RPCConnect_response_def K_def)
  obtain r1 w1 where first: "TCPSocket_RecvAll sock 4 w = (r1, w1)"
    by (cases "TCPSocket_RecvAll sock 4 w")
  note fr = TCPSocket_RecvAll_frame [OF first]
  show ?thesis
  proof (cases r1)
    case (Inl e)
    with first assms resp have "w' = w1"
      by (simp add: andThen_def)
    with fr show ?thesis by simp
  next
    case (Inr buf)
    with first assms resp have run: "K buf w1 = (r, w')"
      by (simp add: andThen_def)
    with K [of buf] obtain cs where "outbox w' = outbox w1" "calls w' = calls w1 @ cs"
      "\<not> list_ex is_send cs"
      by (auto simp: hears_def dest!: spec [of _ w1])
    with fr show ?thesis by simp
  qed
qed

subsection \<open>What a run returns\<close>

lemma returns_only_then:
  assumes "\<And>x. returns_only (f x) G"
  shows "returns_only (andThen m f) G"
  unfolding returns_only_def
proof
  fix w
  obtain r w1 where mw: "m w = (r, w1)"
    by (cases "m w")
  show "case andThen m f w of (Inr x, w') \<Rightarrow> G x | (Inl e, w') \<Rightarrow> True"
  proof (cases r)
    case (Inl e)
    with mw show ?thesis by (simp add: andThen_def)
  next
    case (Inr x)
    with mw assms [of x] show ?thesis
      by (auto simp: andThen_def returns_only_def dest!: spec [of _ w1])
  qed
qed

lemma returns_only_return: "G x \<Longrightarrow> returns_only (return x) G"
  by (simp add: returns_only_def)

lemma returns_onlyD: "returns_only m G \<Longrightarrow> m w = (Inr x, w') \<Longrightarrow> G x"
  by (auto simp: returns_only_def dest!: spec [of _ w])

lemma returns_only_on_unwind:
  assumes "returns_only m G"
  shows "returns_only (on_unwind d m) G"
  unfolding returns_only_def
proof
  fix w
  obtain r w1 where mw: "m w = (r, w1)"
    by (cases "m w")
  show "case on_unwind d m w of (Inr x, w') \<Rightarrow> G x | (Inl e, w') \<Rightarrow> True"
  proof (cases r)
    case (Inl e)
    with mw show ?thesis by (simp add: on_unwind_def)
  next
    case (Inr x)
    with mw assms show ?thesis
      by (auto simp: on_unwind_def returns_only_def dest!: spec [of _ w])
  qed
qed

lemma RPCConnect_returns_name:
  "returns_only (RPCConnect P url port key enable_logging init_seq)
     (\<lambda>endpt. endpt_name endpt = key \<and> (\<exists>sock. endpt_channel endpt = SockChannel sock))"
  unfolding RPCConnect_halves RPCConnect_response_def
  by (intro returns_only_then returns_only_on_unwind returns_only_return)
    (simp add: RPCEndpoint_Create_def)

subsection \<open>The example state\<close>

lemma example_world_ok [simp]:
  "connectable (example_world peer)" "steady (example_world peer)"
  by (simp_all add: example_world_def connectable_def steady_def)

subsection \<open>The results of one send and one receive\<close>

lemma TCPSocket_Send_result:
  assumes "TCPSocket_Send sock data w = (n, w')"
  shows "n = - 1 \<and> outbox w' = outbox w
       \<or> 0 \<le> n \<and> nat n \<le> length data \<and> outbox w' = outbox w @ take (nat n) data"
proof -
  from TCPSocket_Send_frame(2) [OF assms]
  consider "n = - 1" "outbox w' = outbox w"
    | k where "n = int (length (take k data))" "outbox w' = outbox w @ take k data"
    by blast
  then show ?thesis
  proof cases
    case 1
    then show ?thesis by simp
  next
    case 2
    have "take (length (take k data)) data = take k data"
      by (simp add: min_def)
    with 2 show ?thesis by simp
  qed
qed

lemma TCPSocket_Recv_result:
  assumes "TCPSocket_Recv sock sz w = ((n, chunk), w')"
  shows "n = - 1 \<and> chunk = [] \<and> inbox w' = inbox w
       \<or> 0 \<le> n \<and> length chunk = nat n \<and> nat n \<le> sz
           \<and> chunk = take (nat n) (inbox w) \<and> inbox w' = drop (nat n) (inbox w)"
proof (cases "sockfd sock = - 1 \<or> closed w")
  case True
  with assms show ?thesis by (auto simp: TCPSocket_Recv_def)
next
  case False
  have shape: "0 \<le> int (length (take m (inbox w)))
      \<and> length (take m (inbox w)) = nat (int (length (take m (inbox w))))
      \<and> (m \<le> sz \<longrightarrow> nat (int (length (take m (inbox w)))) \<le> sz)
      \<and> take m (inbox w) = take (nat (int (length (take m (inbox w))))) (inbox w)
      \<and> drop m (inbox w) = drop (nat (int (length (take m (inbox w))))) (inbox w)" for m
    by (simp add: min_def)
  show ?thesis
  proof (cases "script w")
    case Nil
    with False assms have "n = int (length (take sz (inbox w)))" "chunk = take sz (inbox w)"
      "inbox w' = drop sz (inbox w)"
      by (auto simp: TCPSocket_Recv_def)
    with shape [of sz] show ?thesis by simp
  next
    case (Cons c rest)
    show ?thesis
    proof (cases c)
      case Fault
      with Cons False assms show ?thesis by (auto simp: TCPSocket_Recv_def)
    next
      case (Chunk k)
      with Cons False assms have "n = int (length (take (min k sz) (inbox w)))"
        "chunk = take (min k sz) (inbox w)" "inbox w' = drop (min k sz) (inbox w)"
        by (auto simp: TCPSocket_Recv_def)
      with shape [of "min k sz"] show ?thesis by simp
    qed
  qed
qed

lemma size_t_of_ssize_t_nat: "0 \<le> n \<Longrightarrow> n < 2 ^ 63 \<Longrightarrow> size_t_of_ssize_t n = nat n"
  by (simp add: size_t_of_ssize_t_def)

subsection \<open>Every run of the handshake\<close>

lemma RPCConnect_any_run:
  assumes "RPCConnect P url port key enable_logging init_seq w = (r, w')"
    and nonneg: "0 \<le> sint (int_of_length (length key))"
  shows "(\<exists>e pre b. r = Inl e \<and> calls w' = calls w @ pre \<and> prefix pre (request_calls P url port key)
            \<and> outbox w' = outbox w @ b \<and> prefix b (request_bytes P key))
       \<or> (\<exists>rest. calls w' = calls w @ request_calls P url port key @ CRecvAll 4 # rest
            \<and> \<not> list_ex is_send rest \<and> outbox w' = outbox w @ request_bytes P key
            \<and> size_t_of_int (int_of_length (length key)) \<le> length key)"
proof -
  obtain r0 w0 where req: "RPCConnect_request P url port key w = (r0, w0)"
    by (cases "RPCConnect_request P url port key w")
  show ?thesis
  proof (cases r0)
    case (Inl e)
    with req assms have "r = Inl e" "w' = w0"
      by (simp_all add: RPCConnect_halves andThen_def)
    moreover from follows_request [OF nonneg, of P url port] req Inl
    have "\<exists>pre b. calls w0 = calls w @ pre \<and> prefix pre (request_calls P url port key)
            \<and> outbox w0 = outbox w @ b \<and> prefix b (request_bytes P key)"
      by (auto simp: follows_def dest!: spec [of _ w])
    ultimately show ?thesis by blast
  next
    case (Inr sock)
    with req assms have "RPCConnect_response P url port key init_seq sock w0 = (r, w')"
      by (simp add: RPCConnect_halves andThen_def)
    from response_shape [OF this] obtain rest where "outbox w' = outbox w0"
      "calls w' = calls w0 @ CRecvAll 4 # rest" "\<not> list_ex is_send rest"
      by blast
    moreover from follows_request [OF nonneg, of P url port] req Inr
    have "calls w0 = calls w @ request_calls P url port key"
      "outbox w0 = outbox w @ request_bytes P key"
      by (auto simp: follows_def dest!: spec [of _ w])
    moreover have "size_t_of_int (int_of_length (length key)) \<le> length key"
      using nonneg unat_int_of_length_le [of "length key"] by (simp add: size_t_of_int_nonneg)
    ultimately show ?thesis by simp
  qed
qed

lemma RPCConnect_reaches_response:
  assumes "connectable w" and "steady w" and "0 \<le> sint (int_of_length (length key))"
    and run: "RPCConnect P url port key enable_logging init_seq w = (r, w')"
  shows "(\<exists>rest. calls w' = calls w @ request_calls P url port key @ CRecvAll 4 # rest
            \<and> \<not> list_ex is_send rest)
       \<and> outbox w' = outbox w @ request_bytes P key"
proof -
  from RPCConnect_request_steady [OF assms(1-3), of P url port]
  obtain scr where req: "RPCConnect_request P url port key w
      = (Inr \<lparr>sockfd = fresh_fd w\<rparr>,
         w\<lparr>script := scr, outbox := outbox w @ request_bytes P key,
           calls := calls w @ request_calls P url port key\<rparr>)"
    by blast
  let ?w0 = "w\<lparr>script := scr, outbox := outbox w @ request_bytes P key,
               calls := calls w @ request_calls P url port key\<rparr>"
  from req run have "RPCConnect_response P url port key init_seq \<lparr>sockfd = fresh_fd w\<rparr> ?w0 = (r, w')"
    by (simp add: RPCConnect_halves andThen_def)
  from response_shape [OF this] show ?thesis
    by simp
qed

lemma request_calls_short:
  assumes "length key < 2 ^ 31"
  shows "request_calls P url port key
       = [CSockAddr url port, CCreate, CConnect, CSendAll (int_bytes P (kRPCMagic P)),
          CSendAll (int_bytes P (int_of_length (length key)))]
         @ (if key = [] then [] else [CSendAll key])"
    and "request_bytes P key
       = int_bytes P (kRPCMagic P) @ int_bytes P (int_of_length (length key)) @ key"
  using assms int_of_length_eq_0 [of "length key"]
  by (simp_all add: request_calls_def request_bytes_def size_t_of_int_length)

lemma request_calls_zero:
  assumes "int_of_length (length key) = 0"
  shows "request_calls P url port key
       = [CSockAddr url port, CCreate, CConnect, CSendAll (int_bytes P (kRPCMagic P)),
          CSendAll (int_bytes P 0)]"
    and "request_bytes P key = int_bytes P (kRPCMagic P) @ int_bytes P 0"
  using assms by (simp_all add: request_calls_def request_bytes_def)

lemma RPCClientConnect_run:
  assumes "RPCClientConnect P url port key enable_logging init_seq w = (r, w')"
  shows "\<exists>r0. RPCConnect P url port (''client:'' @ key) enable_logging init_seq w = (r0, w')
           \<and> r = (case r0 of Inl e \<Rightarrow> Inl e
                   | Inr endpt \<Rightarrow> Inr (RPCSessionModule (ClientSession endpt)))"
  using assms
  by (cases "RPCConnect P url port (''client:'' @ key) enable_logging init_seq w")
    (auto simp: RPCClientConnect_def andThen_def CreateRPCSessionModule_def
      CreateClientSession_def split: sum.splits)

subsection \<open>The exception frame\<close>

lemma SimpleSockHandler_Write_whole:
  assumes "sockfd sock \<noteq> - 1" and "\<not> closed w" and "script w = []"
  shows "SimpleSockHandler_Write sock data w
       = (Inr (size_t_of_ssize_t (int (length data))), w\<lparr>outbox := outbox w @ data\<rparr>)"
  using assms by (simp add: SimpleSockHandler_Write_def TCPSocket_Send_def)

lemma ReturnException_whole:
  assumes "sockfd sock \<noteq> - 1" and "\<not> closed w" and "script w = []"
  shows "ReturnException P marker msg (SimpleSockHandler_Write sock) w
       = (Inr (), w\<lparr>outbox := outbox w @ marker
             @ host_order P (le_nat 8 (length (strlen_text msg))) @ strlen_text msg\<rparr>)"
proof -
  let ?text = "strlen_text msg"
  let ?len = "host_order P (le_nat 8 (length ?text))"
  let ?w1 = "w\<lparr>outbox := outbox w @ marker\<rparr>"
  let ?w2 = "?w1\<lparr>outbox := outbox ?w1 @ ?len\<rparr>"
  have ok1: "\<not> closed ?w1" "script ?w1 = []" and ok2: "\<not> closed ?w2" "script ?w2 = []"
    using assms by simp_all
  note one = SimpleSockHandler_Write_whole [OF assms, of marker]
  note two = SimpleSockHandler_Write_whole [OF assms(1) ok1, of ?len]
  note three = SimpleSockHandler_Write_whole [OF assms(1) ok2, of ?text]
  from one two three show ?thesis
    by (simp add: ReturnException_def Let_def andThen_Inr)
qed

lemma strlen_text_c_str: "strlen_text (c_str m) = takeWhile (\<lambda>c. c \<noteq> CHR 0x00) m"
  by (induction m) (simp_all add: strlen_text_def c_str_def)

lemma decode_exception_frame:
  assumes "length text < 2 ^ 64"
  shows "decode_exception P marker (marker @ host_order P (le_nat 8 (length text)) @ text @ rest)
       = Some (RemoteError text)"
proof -
  have "length text mod 256 ^ 8 = length text"
    using assms by simp
  then have "nat_le (host_order P (host_order P (le_nat 8 (length text)))) = length text"
    by (simp only: host_order_idem nat_le_le_nat)
  then show ?thesis
    by (simp add: decode_exception_def)
qed

subsection \<open>The end of the Endpoint of a server loop\<close>

lemma SockChannel_dtor_socket:
  "SockChannel_dtor TCPSocket_BadSocket TCPSocket_Close sock w
     = (Inr (), if sockfd sock = - 1 \<or> closed w then w
                else w\<lparr>closed := True, calls := calls w @ [CClose]\<rparr>)"
  by (simp add: SockChannel_dtor_def try_catch_all_def andThen_def TCPSocket_BadSocket_def
      TCPSocket_Close_def)

lemma RPCServerLoop_sockfd_apply:
  "RPCServerLoop_sockfd ServerLoop fd w
     = (case ServerLoop \<lparr>endpt_channel = SockChannel \<lparr>sockfd = fd\<rparr>,
                          endpt_name = ''SockServerLoop'', endpt_remote_key = []\<rparr> w of
          (r, w') \<Rightarrow> (r, snd (SockChannel_dtor TCPSocket_BadSocket TCPSocket_Close \<lparr>sockfd = fd\<rparr> w')))"
  by (simp add: RPCServerLoop_sockfd_def Let_def at_end_def RPCEndpoint_dtor_def
      RPCEndpoint_Create_def)

lemma RPCServerLoop_callback_apply:
  "RPCServerLoop_callback ServerLoop fsend frecv w
     = ServerLoop \<lparr>endpt_channel = CallbackChannel fsend frecv,
                   endpt_name = ''SockServerLoop'', endpt_remote_key = []\<rparr> w"
  by (simp add: RPCServerLoop_callback_def Let_def at_end_def RPCEndpoint_dtor_def
      RPCEndpoint_Create_def split: prod.splits)

section \<open>The claims\<close>

text \<open>
  C1. On a connectable host and a steady transport, with a \<open>keylen\<close> that is not
  negative: when the server answers the handshake with the code \<open>MAGIC\<close>, followed by
  the length of its key and the key, \<open>RPCConnect\<close> reads the code, the length and the
  key (three \<open>RecvAll\<close>, the third for exactly the announced number of bytes, whatever
  the sizes in which the transport delivers them), builds the Endpoint over the socket with
  the local key and the key received, and forwards \<open>init_seq\<close> to
  \<open>InitRemoteSession\<close>. When that call returns, it is the last call, the socket is
  open and the Endpoint is returned; its peer key is the key the server sent. When that
  call raises, the Endpoint is destroyed, which closes the socket, and the exception of
  the call is the result.
\<close>

theorem RPCConnect_accepts_on_magic:
  assumes "connectable w" and "steady w"
    and "0 \<le> sint (int_of_length (length key))" and "length remote_key < 2 ^ 31"
    and "inbox w = int_bytes P (kRPCMagic P)
                    @ int_bytes P (int_of_length (length remote_key)) @ remote_key @ rest"
  shows "\<exists>scr endpt W.
           endpt = \<lparr>endpt_channel = SockChannel \<lparr>sockfd = fresh_fd w\<rparr>,
                    endpt_name = key, endpt_remote_key = remote_key\<rparr>
         \<and> W = w\<lparr>script := scr, inbox := rest, outbox := outbox w @ request_bytes P key,
                 calls := calls w @ request_calls P url port key
                   @ [CRecvAll 4, CRecvAll 4]
                   @ (if remote_key = [] then [] else [CRecvAll (length remote_key)])
                   @ [CInitRemoteSession endpt init_seq]\<rparr>
         \<and> RPCConnect P url port key enable_logging init_seq w
           = (case init_error w of
                None \<Rightarrow> (Inr endpt, W)
              | Some e \<Rightarrow> (Inl e, W\<lparr>closed := True, calls := calls W @ [CClose]\<rparr>))"
proof -
  let ?ep = "RPCEndpoint_Create (SockChannel \<lparr>sockfd = fresh_fd w\<rparr>) key remote_key"
  from RPCConnect_accepted [OF assms, where url = url and port = port
      and enable_logging = enable_logging and init_seq = init_seq]
  obtain scr W where W: "W = w\<lparr>script := scr, inbox := rest,
        outbox := outbox w @ request_bytes P key,
        calls := calls w @ request_calls P url port key
          @ [CRecvAll 4, CRecvAll 4]
          @ (if remote_key = [] then [] else [CRecvAll (length remote_key)])
          @ [CInitRemoteSession ?ep init_seq]\<rparr>"
    and run: "RPCConnect P url port key enable_logging init_seq w
      = (case init_error w of
           None \<Rightarrow> (Inr ?ep, W)
         | Some e \<Rightarrow> (Inl e, W\<lparr>closed := True, calls := calls W @ [CClose]\<rparr>))"
    by blast
  have ep: "?ep = \<lparr>endpt_channel = SockChannel \<lparr>sockfd = fresh_fd w\<rparr>,
                   endpt_name = key, endpt_remote_key = remote_key\<rparr>"
    by (simp add: RPCEndpoint_Create_def)
  from W run show ?thesis
    unfolding ep by blast
qed

theorem RPCConnect_accepts_on_magic_witness:
  "connectable (example_world (int_bytes example_platform (kRPCMagic example_platform)
       @ int_bytes example_platform (int_of_length (length ''srv'')) @ ''srv'' @ []))
   \<and> fst (RPCConnect example_platform ''host'' 9090 ''key'' False [AnyInt 1]
        (example_world (int_bytes example_platform (kRPCMagic example_platform)
           @ int_bytes example_platform (int_of_length (length ''srv'')) @ ''srv'' @ [])))
     = Inr \<lparr>endpt_channel = SockChannel \<lparr>sockfd = 3\<rparr>, endpt_name = ''key'',
            endpt_remote_key = ''srv''\<rparr>
   \<and> \<not> closed (snd (RPCConnect example_platform ''host'' 9090 ''key'' False [AnyInt 1]
        (example_world (int_bytes example_platform (kRPCMagic example_platform)
           @ int_bytes example_platform (int_of_length (length ''srv'')) @ ''srv'' @ []))))
   \<and> fst (RPCConnect example_platform ''host'' 9090 ''key'' False [AnyInt 1]
        ((example_world (int_bytes example_platform (kRPCMagic example_platform)
           @ int_bytes example_platform (int_of_length (length ''srv'')) @ ''srv'' @ []))
         \<lparr>init_error := Some (RemoteError ''refused'')\<rparr>))
     = Inl (RemoteError ''refused'')
   \<and> closed (snd (RPCConnect example_platform ''host'' 9090 ''key'' False [AnyInt 1]
        ((example_world (int_bytes example_platform (kRPCMagic example_platform)
           @ int_bytes example_platform (int_of_length (length ''srv'')) @ ''srv'' @ []))
         \<lparr>init_error := Some (RemoteError ''refused'')\<rparr>)))"
proof -
  let ?peer = "int_bytes example_platform (kRPCMagic example_platform)
       @ int_bytes example_platform (int_of_length (length ''srv'')) @ ''srv'' @ []"
  let ?w = "example_world ?peer"
  let ?v = "?w\<lparr>init_error := Some (RemoteError ''refused'')\<rparr>"
  have h: "inbox ?w = ?peer" "inbox ?v = ?peer"
    by (simp_all add: example_world_def)
  have k: "0 \<le> sint (int_of_length (length ''key''))" "length ''srv'' < (2::nat) ^ 31"
    by (simp_all add: int_of_length_def)
  have f: "fresh_fd ?w = 3" "init_error ?w = None" "closed ?w = False"
    by (simp_all add: example_world_def)
  have v: "connectable ?v" "steady ?v"
    by (simp_all add: example_world_def connectable_def steady_def)
  from RPCConnect_accepts_on_magic [OF example_world_ok k h(1), where url = "''host''"
      and port = 9090 and enable_logging = False and init_seq = "[AnyInt 1]"] f
  have one: "fst (RPCConnect example_platform ''host'' 9090 ''key'' False [AnyInt 1] ?w)
      = Inr \<lparr>endpt_channel = SockChannel \<lparr>sockfd = 3\<rparr>, endpt_name = ''key'',
             endpt_remote_key = ''srv''\<rparr>"
    and two: "\<not> closed (snd (RPCConnect example_platform ''host'' 9090 ''key'' False [AnyInt 1] ?w))"
    by auto
  from RPCConnect_accepts_on_magic [OF v k h(2), where url = "''host''"
      and port = 9090 and enable_logging = False and init_seq = "[AnyInt 1]"]
  have three: "fst (RPCConnect example_platform ''host'' 9090 ''key'' False [AnyInt 1] ?v)
      = Inl (RemoteError ''refused'')"
    and four: "closed (snd (RPCConnect example_platform ''host'' 9090 ''key'' False [AnyInt 1] ?v))"
    by auto
  from example_world_ok(1) one two three four show ?thesis
    by blast
qed

text \<open>
  C2. On a connectable host and a steady transport, with a \<open>keylen\<close> that is not
  negative: when the four bytes of the response are any code other than \<open>MAGIC\<close>,
  \<open>RPCConnect\<close> closes the socket and raises; \<open>Close\<close> is its last call, so
  nothing is retried and nothing more is read. The failure is \<open>KeyNotFound\<close> for
  \<open>MAGIC + 2\<close>, \<open>KeyConflict\<close> for \<open>MAGIC + 1\<close> and \<open>ProtocolMismatch\<close> for
  every other code, and the messages of the three are pairwise different.
\<close>

theorem RPCConnect_rejects_other_codes:
  assumes "connectable w" and "steady w" and "0 \<le> sint (int_of_length (length key))"
    and "inbox w = buf @ rest" and "length buf = 4"
    and "bytes_int P buf \<noteq> kRPCMagic P"
  shows "(\<exists>scr. RPCConnect P url port key enable_logging init_seq w
            = (Inl (Fatal (failure_message url port key (failure_of_code P (bytes_int P buf)))),
               w\<lparr>script := scr, inbox := rest, outbox := outbox w @ request_bytes P key,
                 closed := True,
                 calls := calls w @ request_calls P url port key @ [CRecvAll 4, CClose]\<rparr>))
       \<and> failure_of_code P (kRPCMagic P + 2) = KeyNotFound
       \<and> failure_of_code P (kRPCMagic P + 1) = KeyConflict
       \<and> (bytes_int P buf \<noteq> kRPCMagic P + 2 \<and> bytes_int P buf \<noteq> kRPCMagic P + 1
            \<longrightarrow> failure_of_code P (bytes_int P buf) = ProtocolMismatch)
       \<and> inj (failure_message url port key)"
  using RPCConnect_refused [OF assms, of url port enable_logging init_seq]
  by (auto simp: failure_of_code_def failure_message_inj)

theorem RPCConnect_rejects_other_codes_witness:
  "bytes_int example_platform (int_bytes example_platform 0xff273) \<noteq> kRPCMagic example_platform
   \<and> fst (RPCConnect example_platform ''host'' 9090 ''key'' False []
        (example_world (int_bytes example_platform 0xff273 @ [])))
     = Inl (Fatal ''URL host:9090 cannot find server that matches key=key'')
   \<and> closed (snd (RPCConnect example_platform ''host'' 9090 ''key'' False []
        (example_world (int_bytes example_platform 0xff273 @ []))))"
proof -
  let ?buf = "int_bytes example_platform 0xff273"
  have h: "inbox (example_world (?buf @ [])) = ?buf @ []"
    by (simp add: example_world_def)
  have k: "0 \<le> sint (int_of_length (length ''key''))"
    by (simp add: int_of_length_def)
  have c: "bytes_int example_platform ?buf \<noteq> kRPCMagic example_platform"
    by (simp add: example_platform_def)
  have m: "failure_message ''host'' 9090 ''key''
             (failure_of_code example_platform (bytes_int example_platform ?buf))
           = ''URL host:9090 cannot find server that matches key=key''"
    by (simp add: failure_message_def failure_of_code_def example_platform_def dec_int_def
        char_of_def bit_iff_odd)
  from RPCConnect_rejects_other_codes [OF example_world_ok k h length_int_bytes c,
      of "''host''" 9090 False "[]"] c m
  show ?thesis
    by auto
qed

text \<open>
  C3, as amended. For a key whose \<open>keylen\<close> is not negative, in every run of
  \<open>RPCConnect\<close>, on every transport: the calls on the socket are \<open>SendAll\<close> of the
  four bytes of the magic number, \<open>SendAll\<close> of the four bytes of \<open>keylen\<close>,
  \<open>SendAll\<close> of \<open>keylen\<close> bytes of the key (none when \<open>keylen\<close> is 0), in this
  order, and \<open>RecvAll\<close> of four bytes only after them. A run that stops before the
  \<open>RecvAll\<close> raises, having made an initial part of these calls and sent an initial
  part of these bytes; a run that reaches the \<open>RecvAll\<close> has sent all of them, whatever
  the sizes in which the transport took them, the key bytes being exactly \<open>keylen\<close>
  bytes of the key, and makes no \<open>SendAll\<close> afterwards. On a connectable host and a
  steady transport the \<open>RecvAll\<close> is reached.
\<close>

theorem RPCConnect_request_order:
  assumes "RPCConnect P url port key enable_logging init_seq w = (r, w')"
    and "keylen = int_of_length (length key)" and "0 \<le> sint keylen"
    and "request = [CSockAddr url port, CCreate, CConnect,
                    CSendAll (int_bytes P (kRPCMagic P)), CSendAll (int_bytes P keylen)]
                   @ (if keylen \<noteq> 0 then [CSendAll (take (size_t_of_int keylen) key)] else [])"
    and "sent = int_bytes P (kRPCMagic P) @ int_bytes P keylen @ take (size_t_of_int keylen) key"
  shows "((\<exists>e pre b. r = Inl e \<and> calls w' = calls w @ pre \<and> prefix pre request
             \<and> outbox w' = outbox w @ b \<and> prefix b sent)
          \<or> (\<exists>rest. calls w' = calls w @ request @ CRecvAll 4 # rest \<and> \<not> list_ex is_send rest
             \<and> outbox w' = outbox w @ sent \<and> size_t_of_int keylen \<le> length key))
       \<and> (connectable w \<and> steady w
            \<longrightarrow> (\<exists>rest. calls w' = calls w @ request @ CRecvAll 4 # rest)
                \<and> outbox w' = outbox w @ sent)"
proof -
  have rc: "request = request_calls P url port key" and rb: "sent = request_bytes P key"
    using assms(2,4,5) by (simp_all add: request_calls_def request_bytes_def)
  have nonneg: "0 \<le> sint (int_of_length (length key))"
    using assms(2,3) by simp
  from RPCConnect_any_run [OF assms(1) nonneg]
  have first: "(\<exists>e pre b. r = Inl e \<and> calls w' = calls w @ pre \<and> prefix pre request
             \<and> outbox w' = outbox w @ b \<and> prefix b sent)
          \<or> (\<exists>rest. calls w' = calls w @ request @ CRecvAll 4 # rest \<and> \<not> list_ex is_send rest
             \<and> outbox w' = outbox w @ sent \<and> size_t_of_int keylen \<le> length key)"
    by (simp only: rc rb assms(2))
  have second: "(\<exists>rest. calls w' = calls w @ request @ CRecvAll 4 # rest)
                \<and> outbox w' = outbox w @ sent"
    if "connectable w" "steady w"
    using RPCConnect_reaches_response [OF that nonneg assms(1)]
    by (auto simp: rc rb)
  from first second show ?thesis by blast
qed

theorem RPCConnect_request_order_witness:
  "0 \<le> sint (int_of_length (length ''key''))
   \<and> connectable (example_world []) \<and> steady (example_world [])
   \<and> (\<exists>rest. calls (snd (RPCConnect example_platform ''host'' 9090 ''key'' False [] (example_world [])))
        = [CSockAddr ''host'' 9090, CCreate, CConnect,
           CSendAll (int_bytes example_platform 0xff271),
           CSendAll (int_bytes example_platform 3), CSendAll ''key'', CRecvAll 4] @ rest)
   \<and> outbox (snd (RPCConnect example_platform ''host'' 9090 ''key'' False [] (example_world [])))
       = int_bytes example_platform 0xff271 @ int_bytes example_platform 3 @ ''key''"
proof -
  let ?run = "RPCConnect example_platform ''host'' 9090 ''key'' False [] (example_world [])"
  have run: "?run = (fst ?run, snd ?run)"
    by simp
  have k: "0 \<le> sint (int_of_length (length ''key''))"
    by (simp add: int_of_length_def)
  have n: "int_of_length (length ''key'') = 3" "size_t_of_int 3 = 3"
    by (simp_all add: int_of_length_def size_t_of_int_def)
  have e: "calls (example_world []) = []" "outbox (example_world []) = []"
    "kRPCMagic example_platform = 0xff271"
    by (simp_all add: example_world_def example_platform_def)
  note main = RPCConnect_request_order [OF run refl k refl refl, THEN conjunct2, THEN mp,
      OF conjI [OF example_world_ok(1) example_world_ok(2)]]
  from main [unfolded n e] k show ?thesis
    by simp
qed

text \<open>
  C3 as stated fails for a key of \<open>2 ^ 31\<close> bytes: \<open>keylen\<close> is \<open>- 2 ^ 31\<close>, which
  \<open>SendAll\<close> takes as the size \<open>2 ^ 64 - 2 ^ 31\<close>. On a transport that takes all it is
  given, the third \<open>SendAll\<close> sends the key, its terminator and what lies behind it in
  memory, and raises; the response is never read. What was sent is no initial part of
  magic number, \<open>keylen\<close> and key.
\<close>

theorem RPCConnect_negative_keylen_counterexample:
  "sint (int_of_length (length (replicate 2147483648 (CHR ''a'')))) < 0
   \<and> fst (RPCConnect example_platform ''host'' 9090 (replicate 2147483648 (CHR ''a'')) False []
        ((example_world [])\<lparr>script := [], beyond := ''secret''\<rparr>))
     = Inl (SocketError ''SendAll'')
   \<and> outbox (snd (RPCConnect example_platform ''host'' 9090 (replicate 2147483648 (CHR ''a''))
        False [] ((example_world [])\<lparr>script := [], beyond := ''secret''\<rparr>)))
     = int_bytes example_platform 0xff271
       @ int_bytes example_platform (int_of_length (length (replicate 2147483648 (CHR ''a''))))
       @ replicate 2147483648 (CHR ''a'') @ [CHR 0x00] @ ''secret''
   \<and> calls (snd (RPCConnect example_platform ''host'' 9090 (replicate 2147483648 (CHR ''a''))
        False [] ((example_world [])\<lparr>script := [], beyond := ''secret''\<rparr>)))
     = [CSockAddr ''host'' 9090, CCreate, CConnect,
        CSendAll (int_bytes example_platform 0xff271),
        CSendAll (int_bytes example_platform (int_of_length (length (replicate 2147483648 (CHR ''a''))))),
        CSendAll (replicate 2147483648 (CHR ''a'') @ [CHR 0x00] @ ''secret'')]
   \<and> \<not> prefix
        (outbox (snd (RPCConnect example_platform ''host'' 9090 (replicate 2147483648 (CHR ''a''))
           False [] ((example_world [])\<lparr>script := [], beyond := ''secret''\<rparr>))))
        (int_bytes example_platform 0xff271
         @ int_bytes example_platform (int_of_length (length (replicate 2147483648 (CHR ''a''))))
         @ replicate 2147483648 (CHR ''a''))"
proof -
  have gen: "sint (int_of_length (length K)) < 0
   \<and> fst (RPCConnect example_platform ''host'' 9090 K False []
        ((example_world [])\<lparr>script := [], beyond := ''secret''\<rparr>))
     = Inl (SocketError ''SendAll'')
   \<and> outbox (snd (RPCConnect example_platform ''host'' 9090 K
        False [] ((example_world [])\<lparr>script := [], beyond := ''secret''\<rparr>)))
     = int_bytes example_platform 0xff271
       @ int_bytes example_platform (int_of_length (length K))
       @ K @ [CHR 0x00] @ ''secret''
   \<and> calls (snd (RPCConnect example_platform ''host'' 9090 K
        False [] ((example_world [])\<lparr>script := [], beyond := ''secret''\<rparr>)))
     = [CSockAddr ''host'' 9090, CCreate, CConnect,
        CSendAll (int_bytes example_platform 0xff271),
        CSendAll (int_bytes example_platform (int_of_length (length K))),
        CSendAll (K @ [CHR 0x00] @ ''secret'')]
   \<and> \<not> prefix
        (outbox (snd (RPCConnect example_platform ''host'' 9090 K
           False [] ((example_world [])\<lparr>script := [], beyond := ''secret''\<rparr>))))
        (int_bytes example_platform 0xff271
         @ int_bytes example_platform (int_of_length (length K)) @ K)"
    if len: "length K = 2147483648" for K :: string
  proof -
    let ?w = "(example_world [])\<lparr>script := [], beyond := ''secret''\<rparr>"
    have neg: "sint (int_of_length (length K)) < 0"
      by (simp add: len int_of_length_def)
    have w: "connectable ?w" "steady ?w"
      by (simp_all add: example_world_def connectable_def steady_def)
    have room: "length (c_str K @ beyond ?w) < 2 ^ 63"
      by (simp add: c_str_def len example_world_def)
    have e: "outbox ?w = []" "calls ?w = []" "beyond ?w = ''secret''"
      "kRPCMagic example_platform = 0xff271"
      by (simp_all add: example_world_def example_platform_def)
    from RPCConnect_overrun [OF w neg room, of example_platform "''host''" 9090 False "[]"]
    obtain scr where run: "RPCConnect example_platform ''host'' 9090 K False [] ?w
      = (Inl (SocketError ''SendAll''),
         ?w\<lparr>script := scr,
           outbox := outbox ?w @ int_bytes example_platform (kRPCMagic example_platform)
             @ int_bytes example_platform (int_of_length (length K)) @ c_str K @ beyond ?w,
           calls := calls ?w @ [CSockAddr ''host'' 9090, CCreate, CConnect,
             CSendAll (int_bytes example_platform (kRPCMagic example_platform)),
             CSendAll (int_bytes example_platform (int_of_length (length K))),
             CSendAll (c_str K @ beyond ?w)]\<rparr>)"
      by blast
    have "\<not> prefix (a @ b @ K @ [CHR 0x00] @ ''secret'') (a @ b @ K)" for a b :: bytes
      using prefix_length_le [of "a @ b @ K @ [CHR 0x00] @ ''secret''" "a @ b @ K"] by auto
    with neg show ?thesis
      unfolding run e by (simp add: c_str_def)
  qed
  show ?thesis
    by (rule gen) (simp only: length_replicate)
qed

text \<open>
  C4, as amended. On an open descriptor whose transport takes every write whole,
  \<open>rpc.ReturnException\<close> writes one exception frame: the marker, the length of the text
  and the text, where the text is the message up to its first NUL (the message is passed on
  as a C string). The receiving side decodes that text from the frame; it is exactly the
  message when the message holds no NUL.
\<close>

theorem rpc_ReturnException_round_trip:
  assumes "fd \<noteq> - 1" and "\<not> closed w" and "script w = []" and "length m < 2 ^ 64"
  shows "\<exists>text frame.
           text = takeWhile (\<lambda>c. c \<noteq> CHR 0x00) m
         \<and> frame = marker @ host_order P (le_nat 8 (length text)) @ text
         \<and> rpc_ReturnException P marker fd m w = (Inr (), w\<lparr>outbox := outbox w @ frame\<rparr>)
         \<and> decode_exception P marker (frame @ rest) = Some (RemoteError text)
         \<and> (CHR 0x00 \<notin> set m \<longrightarrow> text = m)"
proof -
  let ?text = "takeWhile (\<lambda>c. c \<noteq> CHR 0x00) m"
  let ?frame = "marker @ host_order P (le_nat 8 (length ?text)) @ ?text"
  have "length ?text \<le> length m"
    by (rule length_takeWhile_le)
  with assms(4) have short: "length ?text < 2 ^ 64"
    by simp
  have fd: "sockfd \<lparr>sockfd = fd\<rparr> \<noteq> - 1"
    using assms(1) by simp
  have "rpc_ReturnException P marker fd m w = (Inr (), w\<lparr>outbox := outbox w @ ?frame\<rparr>)"
    unfolding rpc_ReturnException_def Let_def
    by (simp add: ReturnException_whole [OF fd assms(2,3)] strlen_text_c_str)
  moreover have "decode_exception P marker (?frame @ rest) = Some (RemoteError ?text)"
    using decode_exception_frame [OF short, of P marker rest] by simp
  moreover have "CHR 0x00 \<notin> set m \<longrightarrow> ?text = m"
    by auto
  ultimately show ?thesis
    by blast
qed

theorem rpc_ReturnException_round_trip_witness:
  "(3::int) \<noteq> - 1 \<and> \<not> closed ((example_world [])\<lparr>script := []\<rparr>)
   \<and> script ((example_world [])\<lparr>script := []\<rparr>) = [] \<and> length ''overflow'' < (2::nat) ^ 64
   \<and> decode_exception example_platform ''EXC!''
        (outbox (snd (rpc_ReturnException example_platform ''EXC!'' 3 ''overflow''
           ((example_world [])\<lparr>script := []\<rparr>))))
      = Some (RemoteError ''overflow'')"
proof -
  let ?w = "(example_world [])\<lparr>script := []\<rparr>"
  have h: "(3::int) \<noteq> - 1" "\<not> closed ?w" "script ?w = []" "length ''overflow'' < (2::nat) ^ 64"
    by (simp_all add: example_world_def)
  have o: "outbox ?w = []"
    by (simp add: example_world_def)
  have t: "takeWhile (\<lambda>c. c \<noteq> CHR 0x00) ''overflow'' = ''overflow''"
    by simp
  from rpc_ReturnException_round_trip [OF h, where P = example_platform and marker = "''EXC!''"
      and rest = "[]"]
  obtain frame where "rpc_ReturnException example_platform ''EXC!'' 3 ''overflow'' ?w
      = (Inr (), ?w\<lparr>outbox := outbox ?w @ frame\<rparr>)"
    and "decode_exception example_platform ''EXC!'' (frame @ []) = Some (RemoteError ''overflow'')"
    unfolding t by blast
  then have "decode_exception example_platform ''EXC!''
        (outbox (snd (rpc_ReturnException example_platform ''EXC!'' 3 ''overflow'' ?w)))
      = Some (RemoteError ''overflow'')"
    by (simp add: o)
  with h show ?thesis
    by blast
qed

text \<open>
  C4 as stated fails for a message with a NUL inside: of \<open>a\<close>, NUL, \<open>b\<close> the receiving
  side decodes \<open>a\<close>. It also fails on a transport that takes a write in part: with 3, 1
  and 2 bytes taken of the three writes, what arrives for \<open>overflow\<close> is no frame.
\<close>

theorem rpc_ReturnException_counterexample:
  "decode_exception example_platform ''EXC!''
     (outbox (snd (rpc_ReturnException example_platform ''EXC!'' 3 [CHR ''a'', CHR 0x00, CHR ''b'']
        ((example_world [])\<lparr>script := []\<rparr>))))
     = Some (RemoteError ''a'')
   \<and> decode_exception example_platform ''EXC!''
     (outbox (snd (rpc_ReturnException example_platform ''EXC!'' 3 [CHR ''a'', CHR 0x00, CHR ''b'']
        ((example_world [])\<lparr>script := []\<rparr>))))
     \<noteq> Some (RemoteError [CHR ''a'', CHR 0x00, CHR ''b''])
   \<and> outbox (snd (rpc_ReturnException example_platform ''EXC!'' 3 ''overflow'' (example_world [])))
     = ''EXC'' @ [CHR 0x08] @ ''ov''
   \<and> decode_exception example_platform ''EXC!''
     (outbox (snd (rpc_ReturnException example_platform ''EXC!'' 3 ''overflow'' (example_world []))))
     \<noteq> Some (RemoteError ''overflow'')"
proof -
  let ?w = "(example_world [])\<lparr>script := []\<rparr>"
  let ?m = "[CHR ''a'', CHR 0x00, CHR ''b'']"
  have h: "sockfd \<lparr>sockfd = 3\<rparr> \<noteq> - 1" "\<not> closed ?w" "script ?w = []"
    by (simp_all add: example_world_def)
  have t: "strlen_text (c_str ?m) = ''a''"
    by (simp add: strlen_text_def c_str_def)
  have "rpc_ReturnException example_platform ''EXC!'' 3 ?m ?w
      = (Inr (), ?w\<lparr>outbox := outbox ?w @ ''EXC!''
            @ host_order example_platform (le_nat 8 (length ''a'')) @ ''a''\<rparr>)"
    unfolding rpc_ReturnException_def Let_def ReturnException_whole [OF h] t by simp
  then have out: "outbox (snd (rpc_ReturnException example_platform ''EXC!'' 3 ?m ?w))
      = ''EXC!'' @ host_order example_platform (le_nat 8 (length ''a'')) @ ''a'' @ []"
    by (simp add: example_world_def)
  have len: "length ''a'' < (2::nat) ^ 64"
    by simp
  have one: "decode_exception example_platform ''EXC!''
      (outbox (snd (rpc_ReturnException example_platform ''EXC!'' 3 ?m ?w)))
      = Some (RemoteError ''a'')"
    unfolding out by (rule decode_exception_frame [OF len])
  have short: "outbox (snd (rpc_ReturnException example_platform ''EXC!'' 3 ''overflow'' (example_world [])))
      = ''EXC'' @ [CHR 0x08] @ ''ov''"
    by (simp add: rpc_ReturnException_def ReturnException_def Let_def SimpleSockHandler_Write_def
        TCPSocket_Send_def andThen_def example_world_def strlen_text_def c_str_def
        host_order_def example_platform_def le_nat_numeral char_of_def bit_iff_odd)
  have two: "decode_exception example_platform ''EXC!'' (''EXC'' @ [CHR 0x08] @ ''ov'')
      \<noteq> Some (RemoteError ''overflow'')"
    by (simp add: decode_exception_def)
  from one short two show ?thesis
    by simp
qed

text \<open>
  C5. The destructor of a socket-backed channel never raises, whatever \<open>BadSocket\<close> and
  \<open>Close\<close> do: it closes the socket only when \<open>BadSocket\<close> has returned false, in
  the state \<open>BadSocket\<close> left, and an error raised by \<open>BadSocket\<close> or by \<open>Close\<close>
  is dropped.
\<close>

theorem SockChannel_dtor_never_raises:
  "SockChannel_dtor BadSocket Close sock w =
     (Inr (),
      case BadSocket sock w of
        (Inl e, w1) \<Rightarrow> w1
      | (Inr bad, w1) \<Rightarrow> if bad then w1 else snd (Close sock w1))"
  by (simp add: SockChannel_dtor_def try_catch_all_def andThen_def
      split: prod.splits sum.splits)

theorem SockChannel_dtor_never_raises_witness:
  "SockChannel_dtor (\<lambda>s. return (sockfd s = - 1)) TCPSocket_Close \<lparr>sockfd = 3\<rparr> (example_world [])
     = (Inr (), (example_world [])\<lparr>closed := True, calls := [CClose]\<rparr>)
   \<and> SockChannel_dtor (\<lambda>s. return (sockfd s = - 1)) TCPSocket_Close \<lparr>sockfd = - 1\<rparr> (example_world [])
     = (Inr (), example_world [])
   \<and> SockChannel_dtor (\<lambda>s. throw (SocketError ''GetSockError'')) TCPSocket_Close \<lparr>sockfd = 3\<rparr>
        (example_world [])
     = (Inr (), example_world [])
   \<and> fst (TCPSocket_Close \<lparr>sockfd = 3\<rparr> ((example_world [])\<lparr>closed := True\<rparr>))
     = Inl (SocketError ''Socket::Close double close the socket or close without create'')
   \<and> fst (SockChannel_dtor (\<lambda>s. return False) TCPSocket_Close \<lparr>sockfd = 3\<rparr>
        ((example_world [])\<lparr>closed := True\<rparr>))
     = Inr ()"
  using SockChannel_dtor_never_raises [of "\<lambda>s. return (sockfd s = - 1)" TCPSocket_Close
      "\<lparr>sockfd = 3\<rparr>" "example_world []"]
    SockChannel_dtor_never_raises [of "\<lambda>s. return (sockfd s = - 1)" TCPSocket_Close
      "\<lparr>sockfd = - 1\<rparr>" "example_world []"]
    SockChannel_dtor_never_raises [of "\<lambda>s. throw (SocketError ''GetSockError'')" TCPSocket_Close
      "\<lparr>sockfd = 3\<rparr>" "example_world []"]
    SockChannel_dtor_never_raises [of "\<lambda>s. return False" TCPSocket_Close
      "\<lparr>sockfd = 3\<rparr>" "(example_world [])\<lparr>closed := True\<rparr>"]
  by (simp add: TCPSocket_Close_def andThen_def example_world_def)

text \<open>
  C6. A \<open>Send\<close> or \<open>Recv\<close> of a socket-backed channel is one call of the socket (the
  requested size fitting a \<^verbatim>\<open>ssize_t\<close>). When the socket's result is negative the
  channel raises a socket error and returns nothing, and the error ends whatever the
  owner had planned next. Otherwise the channel returns the number of bytes transferred,
  which is at most the number requested and may be less; the bytes are the next ones of
  the stream. A result of 0 is returned as 0; the owning Endpoint, as the specification
  has it, ends with an error on it as it does on the fault.
\<close>

theorem SockChannel_transfers:
  assumes "length data < 2 ^ 63" and "sz < 2 ^ 63"
  shows "(\<forall>n w'. TCPSocket_Send sock data w = (n, w') \<longrightarrow>
            (n < 0 \<longrightarrow> SockChannel_Send sock data w = (Inl (SocketError ''SockChannel::Send''), w')
                      \<and> (\<forall>f. andThen (SockChannel_Send sock data) f w
                              = (Inl (SocketError ''SockChannel::Send''), w')))
          \<and> (0 \<le> n \<longrightarrow> SockChannel_Send sock data w = (Inr (nat n), w')
                      \<and> nat n \<le> length data \<and> outbox w' = outbox w @ take (nat n) data))
       \<and> (\<forall>n chunk w'. TCPSocket_Recv sock sz w = ((n, chunk), w') \<longrightarrow>
            (n < 0 \<longrightarrow> SockChannel_Recv sock sz w = (Inl (SocketError ''SockChannel::Recv''), w')
                      \<and> Endpoint_Recv sock sz w = (Inl (SocketError ''SockChannel::Recv''), w'))
          \<and> (0 \<le> n \<longrightarrow> SockChannel_Recv sock sz w = (Inr (nat n, chunk), w')
                      \<and> length chunk = nat n \<and> nat n \<le> sz
                      \<and> chunk = take (nat n) (inbox w) \<and> inbox w' = drop (nat n) (inbox w))
          \<and> (n = 0 \<longrightarrow> (\<exists>e. Endpoint_Recv sock sz w = (Inl e, w'))))"
proof (intro conjI allI impI)
  fix n w'
  assume run: "TCPSocket_Send sock data w = (n, w')"
  note res = TCPSocket_Send_result [OF run]
  {
    assume "n < 0"
    with res have "n = - 1" by auto
    with run show "SockChannel_Send sock data w = (Inl (SocketError ''SockChannel::Send''), w')"
      by (simp add: SockChannel_Send_def)
    then show "andThen (SockChannel_Send sock data) f w
        = (Inl (SocketError ''SockChannel::Send''), w')" for f
      by (rule andThen_Inl)
  }
  {
    assume "0 \<le> n"
    with res have le: "nat n \<le> length data" and out: "outbox w' = outbox w @ take (nat n) data"
      by auto
    from le assms(1) have "nat n < 2 ^ 63"
      by simp
    with \<open>0 \<le> n\<close> have "n < 2 ^ 63"
      by (simp add: nat_less_iff)
    with \<open>0 \<le> n\<close> run show "SockChannel_Send sock data w = (Inr (nat n), w')"
      by (simp add: SockChannel_Send_def size_t_of_ssize_t_nat)
    from le show "nat n \<le> length data" .
    from out show "outbox w' = outbox w @ take (nat n) data" .
  }
next
  fix n chunk w'
  assume run: "TCPSocket_Recv sock sz w = ((n, chunk), w')"
  note res = TCPSocket_Recv_result [OF run]
  {
    assume "n < 0"
    with res have "n = - 1" by auto
    with run show raised: "SockChannel_Recv sock sz w = (Inl (SocketError ''SockChannel::Recv''), w')"
      by (simp add: SockChannel_Recv_def)
    then show "Endpoint_Recv sock sz w = (Inl (SocketError ''SockChannel::Recv''), w')"
      by (simp add: Endpoint_Recv_def andThen_Inl)
  }
  {
    assume nn: "0 \<le> n"
    with res have facts: "length chunk = nat n" "nat n \<le> sz" "chunk = take (nat n) (inbox w)"
      "inbox w' = drop (nat n) (inbox w)"
      by auto
    from facts(2) assms(2) have "nat n < 2 ^ 63"
      by simp
    with nn have "n < 2 ^ 63"
      by (simp add: nat_less_iff)
    with nn run show "SockChannel_Recv sock sz w = (Inr (nat n, chunk), w')"
      by (simp add: SockChannel_Recv_def size_t_of_ssize_t_nat)
    from facts show "length chunk = nat n" "nat n \<le> sz" "chunk = take (nat n) (inbox w)"
      "inbox w' = drop (nat n) (inbox w)" .
  }
  {
    assume "n = 0"
    with run have "SockChannel_Recv sock sz w = (Inr (0, chunk), w')"
      by (simp add: SockChannel_Recv_def size_t_of_ssize_t_def)
    then have "Endpoint_Recv sock sz w = (Inl (Fatal ''Channel closes before we get needed bytes''), w')"
      by (simp add: Endpoint_Recv_def andThen_Inr)
    then show "\<exists>e. Endpoint_Recv sock sz w = (Inl e, w')"
      by blast
  }
qed

theorem SockChannel_transfers_witness:
  "length ''hello'' < (2::nat) ^ 63 \<and> (4::nat) < 2 ^ 63
   \<and> fst (TCPSocket_Send \<lparr>sockfd = 3\<rparr> ''hello'' (example_world [])) = 3
   \<and> fst (SockChannel_Send \<lparr>sockfd = 3\<rparr> ''hello'' (example_world [])) = Inr 3
   \<and> fst (TCPSocket_Send \<lparr>sockfd = - 1\<rparr> ''hello'' (example_world [])) = - 1
   \<and> fst (SockChannel_Send \<lparr>sockfd = - 1\<rparr> ''hello'' (example_world []))
       = Inl (SocketError ''SockChannel::Send'')
   \<and> fst (TCPSocket_Recv \<lparr>sockfd = 3\<rparr> 4 (example_world [])) = (0, [])
   \<and> fst (SockChannel_Recv \<lparr>sockfd = 3\<rparr> 4 (example_world [])) = Inr (0, [])"
proof -
  have a: "length ''hello'' < (2::nat) ^ 63" "(4::nat) < 2 ^ 63"
    by simp_all
  have s3: "TCPSocket_Send \<lparr>sockfd = 3\<rparr> ''hello'' (example_world [])
      = (3, snd (TCPSocket_Send \<lparr>sockfd = 3\<rparr> ''hello'' (example_world [])))"
    by (simp add: TCPSocket_Send_def example_world_def)
  have s1: "TCPSocket_Send \<lparr>sockfd = - 1\<rparr> ''hello'' (example_world [])
      = (- 1, snd (TCPSocket_Send \<lparr>sockfd = - 1\<rparr> ''hello'' (example_world [])))"
    by (simp add: TCPSocket_Send_def example_world_def)
  have r0: "TCPSocket_Recv \<lparr>sockfd = 3\<rparr> 4 (example_world [])
      = ((0, []), snd (TCPSocket_Recv \<lparr>sockfd = 3\<rparr> 4 (example_world [])))"
    by (simp add: TCPSocket_Recv_def example_world_def)
  note t3 = SockChannel_transfers [OF a, of "\<lparr>sockfd = 3\<rparr>" "example_world []"]
  note t1 = SockChannel_transfers [OF a, of "\<lparr>sockfd = - 1\<rparr>" "example_world []"]
  from t3 s3 have "fst (SockChannel_Send \<lparr>sockfd = 3\<rparr> ''hello'' (example_world [])) = Inr 3"
    by (metis fst_conv nat_numeral zero_le_numeral)
  moreover from t1 s1
  have "fst (SockChannel_Send \<lparr>sockfd = - 1\<rparr> ''hello'' (example_world []))
      = Inl (SocketError ''SockChannel::Send'')"
    by (metis fst_conv neg_less_0_iff_less zero_less_one)
  moreover from t3 r0 have "fst (SockChannel_Recv \<lparr>sockfd = 3\<rparr> 4 (example_world [])) = Inr (0, [])"
    by (metis fst_conv nat_0 order_refl)
  ultimately show ?thesis
    using a s3 s1 r0 by (metis fst_conv)
qed

text \<open>
  C7. There are two server-loop entry points. The one that takes a descriptor runs the
  server loop on an Endpoint over a socket-backed channel of that descriptor, the one that
  takes the pair \<open>fsend\<close>, \<open>frecv\<close> runs it on an Endpoint over a callback-backed
  channel of the pair; both call the loop in the state in which they were called
  themselves, and both give back what the loop gives back. The Endpoint ends with the
  call, and its channel with it: for the socket-backed channel that is the destructor of
  \<open>SockChannel\<close>. The function \<open>rpc.ServerLoop\<close> goes to the first entry point for an
  integer argument and to the second for two functions, and runs no loop for two arguments
  of another kind. For a server loop that does not look at the variant of the channel, the
  two paths give the same result, and the states they leave differ in one thing: after the
  socket path the descriptor is closed.
\<close>

theorem RPCServerLoop_paths_agree:
  "RPCServerLoop_sockfd ServerLoop fd w
     = (case ServerLoop \<lparr>endpt_channel = SockChannel \<lparr>sockfd = fd\<rparr>,
                          endpt_name = ''SockServerLoop'', endpt_remote_key = []\<rparr> w of
          (r, w') \<Rightarrow> (r, snd (SockChannel_dtor TCPSocket_BadSocket TCPSocket_Close \<lparr>sockfd = fd\<rparr> w')))
   \<and> RPCServerLoop_callback ServerLoop fsend frecv w
     = ServerLoop \<lparr>endpt_channel = CallbackChannel fsend frecv,
                   endpt_name = ''SockServerLoop'', endpt_remote_key = []\<rparr> w
   \<and> rpc_ServerLoop Loop (AnyInt i # args) = RPCServerLoop_sockfd Loop (int_of_int64 i)
   \<and> rpc_ServerLoop Loop (AnyFunction f # AnyFunction g # args) = RPCServerLoop_callback Loop f g
   \<and> ((\<forall>j. a \<noteq> AnyInt j) \<and> (\<forall>f g. a = AnyFunction f \<longrightarrow> b \<noteq> AnyFunction g)
        \<longrightarrow> rpc_ServerLoop Loop (a # b # args) = throw CastError)
   \<and> ((\<forall>e e'. endpt_name e = endpt_name e' \<and> endpt_remote_key e = endpt_remote_key e'
              \<longrightarrow> ServerLoop e = ServerLoop e')
        \<longrightarrow> (case RPCServerLoop_callback ServerLoop fsend frecv w of
               (r, w') \<Rightarrow>
                 RPCServerLoop_sockfd ServerLoop fd w
                   = (r, if fd = - 1 \<or> closed w' then w'
                         else w'\<lparr>closed := True, calls := calls w' @ [CClose]\<rparr>)))"
proof -
  let ?S = "\<lparr>endpt_channel = SockChannel \<lparr>sockfd = fd\<rparr>,
             endpt_name = ''SockServerLoop'', endpt_remote_key = []\<rparr>"
  let ?C = "\<lparr>endpt_channel = CallbackChannel fsend frecv,
             endpt_name = ''SockServerLoop'', endpt_remote_key = []\<rparr>"
  have c: "(\<forall>j. a \<noteq> AnyInt j) \<and> (\<forall>f g. a = AnyFunction f \<longrightarrow> b \<noteq> AnyFunction g)
        \<longrightarrow> rpc_ServerLoop Loop (a # b # args) = throw CastError"
    by (cases a; cases b) simp_all
  have d: "(\<forall>e e'. endpt_name e = endpt_name e' \<and> endpt_remote_key e = endpt_remote_key e'
              \<longrightarrow> ServerLoop e = ServerLoop e')
        \<longrightarrow> (case RPCServerLoop_callback ServerLoop fsend frecv w of
               (r, w') \<Rightarrow>
                 RPCServerLoop_sockfd ServerLoop fd w
                   = (r, if fd = - 1 \<or> closed w' then w'
                         else w'\<lparr>closed := True, calls := calls w' @ [CClose]\<rparr>))"
  proof
    assume blind: "\<forall>e e'. endpt_name e = endpt_name e' \<and> endpt_remote_key e = endpt_remote_key e'
              \<longrightarrow> ServerLoop e = ServerLoop e'"
    have "ServerLoop ?S = ServerLoop ?C"
      by (rule blind [rule_format]) simp
    then show "case RPCServerLoop_callback ServerLoop fsend frecv w of
               (r, w') \<Rightarrow>
                 RPCServerLoop_sockfd ServerLoop fd w
                   = (r, if fd = - 1 \<or> closed w' then w'
                         else w'\<lparr>closed := True, calls := calls w' @ [CClose]\<rparr>)"
      by (simp add: RPCServerLoop_sockfd_apply RPCServerLoop_callback_apply
          SockChannel_dtor_socket split: prod.splits)
  qed
  have e: "rpc_ServerLoop Loop (AnyInt i # args) = RPCServerLoop_sockfd Loop (int_of_int64 i)"
    "rpc_ServerLoop Loop (AnyFunction f # AnyFunction g # args) = RPCServerLoop_callback Loop f g"
    by simp_all
  show ?thesis
    by (intro conjI RPCServerLoop_sockfd_apply RPCServerLoop_callback_apply c d e)
qed

theorem RPCServerLoop_paths_agree_witness:
  "RPCServerLoop_callback (\<lambda>e. throw (RemoteError (endpt_name e)))
       (FunctionRef 1) (FunctionRef 2) (example_world [])
     = (Inl (RemoteError ''SockServerLoop'') :: error + unit, example_world [])
   \<and> RPCServerLoop_sockfd (\<lambda>e. throw (RemoteError (endpt_name e))) 5 (example_world [])
     = (Inl (RemoteError ''SockServerLoop'') :: error + unit,
        (example_world [])\<lparr>closed := True, calls := [CClose]\<rparr>)
   \<and> rpc_ServerLoop (\<lambda>e. throw (RemoteError (endpt_name e))) [AnyInt 5] (example_world [])
     = (Inl (RemoteError ''SockServerLoop''), (example_world [])\<lparr>closed := True, calls := [CClose]\<rparr>)
   \<and> rpc_ServerLoop (\<lambda>e. throw (RemoteError (endpt_name e))) [AnyStr ''x'', AnyBool True]
        (example_world [])
     = (Inl CastError, example_world [])"
proof -
  let ?loop = "\<lambda>e. throw (RemoteError (endpt_name e)) :: unit action"
  let ?w = "example_world []"
  have blind: "\<forall>e e'. endpt_name e = endpt_name e' \<and> endpt_remote_key e = endpt_remote_key e'
       \<longrightarrow> ?loop e = ?loop e'"
    by simp
  have other: "(\<forall>j. AnyStr ''x'' \<noteq> AnyInt j)
       \<and> (\<forall>f g. AnyStr ''x'' = AnyFunction f \<longrightarrow> AnyBool True \<noteq> AnyFunction g)"
    by simp
  have e: "closed ?w = False" "calls ?w = []"
    by (simp_all add: example_world_def)
  note main = RPCServerLoop_paths_agree [where ServerLoop = ?loop and Loop = ?loop and fd = 5
      and fsend = "FunctionRef 1" and frecv = "FunctionRef 2" and w = ?w and i = 5
      and args = "[]" and a = "AnyStr ''x''" and b = "AnyBool True"]
  note callback = main [THEN conjunct2, THEN conjunct1]
  note by_int = main [THEN conjunct2, THEN conjunct2, THEN conjunct1]
  note by_other = main [THEN conjunct2, THEN conjunct2, THEN conjunct2, THEN conjunct2,
      THEN conjunct1, THEN mp, OF other]
  note agree = main [THEN conjunct2, THEN conjunct2, THEN conjunct2, THEN conjunct2,
      THEN conjunct2, THEN mp, OF blind]
  have cb: "RPCServerLoop_callback ?loop (FunctionRef 1) (FunctionRef 2) ?w
      = (Inl (RemoteError ''SockServerLoop''), ?w)"
    unfolding callback by simp
  from agree have sk: "RPCServerLoop_sockfd ?loop 5 ?w
      = (Inl (RemoteError ''SockServerLoop''), ?w\<lparr>closed := True, calls := [CClose]\<rparr>)"
    unfolding cb by (simp add: e)
  have int: "rpc_ServerLoop ?loop [AnyInt 5] ?w
      = (Inl (RemoteError ''SockServerLoop''), ?w\<lparr>closed := True, calls := [CClose]\<rparr>)"
    unfolding by_int using sk by (simp add: int_of_int64_def)
  have bad: "rpc_ServerLoop ?loop [AnyStr ''x'', AnyBool True] ?w = (Inl CastError, ?w)"
    unfolding by_other by simp
  from cb sk int bad show ?thesis
    by (simp only: simp_thms)
qed

text \<open>
  C8, as amended. For a key of fewer than \<open>2 ^ 31 - 7\<close> bytes, every run of
  \<open>RPCClientConnect\<close> performs the handshake of \<open>RPCConnect\<close> with the key
  \<open>client:\<close> followed by the given key: the key bytes of the request are exactly that
  string, announced with its length; a run that stops before the response is read has sent
  an initial part of the request, and on a connectable host and a steady transport the
  request is sent whole. The session returned is over an Endpoint whose local key is that
  string. (The length travels as a 32-bit \<^verbatim>\<open>int\<close>: a longer key is not sent whole.)
\<close>

theorem RPCClientConnect_sends_prefixed_key:
  assumes "7 + length key < 2 ^ 31"
    and "RPCClientConnect P url port key enable_logging init_seq w = (r, w')"
    and "request = [CSockAddr url port, CCreate, CConnect,
                    CSendAll (int_bytes P (kRPCMagic P)),
                    CSendAll (int_bytes P (int_of_length (7 + length key))),
                    CSendAll (''client:'' @ key)]"
    and "sent = int_bytes P (kRPCMagic P) @ int_bytes P (int_of_length (7 + length key))
                @ ''client:'' @ key"
  shows "((\<exists>e pre b. r = Inl e \<and> calls w' = calls w @ pre \<and> prefix pre request
             \<and> outbox w' = outbox w @ b \<and> prefix b sent)
          \<or> (\<exists>rest. calls w' = calls w @ request @ CRecvAll 4 # rest \<and> \<not> list_ex is_send rest
             \<and> outbox w' = outbox w @ sent))
       \<and> (connectable w \<and> steady w
            \<longrightarrow> (\<exists>rest. calls w' = calls w @ request @ CRecvAll 4 # rest)
                \<and> outbox w' = outbox w @ sent)
       \<and> (\<forall>module. r = Inr module
            \<longrightarrow> (\<exists>endpt. module = RPCSessionModule (ClientSession endpt)
                   \<and> endpt_name endpt = ''client:'' @ key))"
proof -
  let ?key = "''client:'' @ key"
  have len: "length ?key < 2 ^ 31" and l7: "length ?key = 7 + length key"
    using assms(1) by simp_all
  from RPCClientConnect_run [OF assms(2)]
  obtain r0 where run: "RPCConnect P url port ?key enable_logging init_seq w = (r0, w')"
    and r: "r = (case r0 of Inl e \<Rightarrow> Inl e
                 | Inr endpt \<Rightarrow> Inr (RPCSessionModule (ClientSession endpt)))"
    by blast
  have rc: "request_calls P url port ?key = request"
    and rb: "request_bytes P ?key = sent"
    unfolding request_calls_short [OF len] l7 assms(3,4) by simp_all
  have inl: "r0 = Inl e \<Longrightarrow> r = Inl e" for e
    by (simp add: r)
  from RPCConnect_any_run [OF run sint_int_of_length_nonneg [OF len]]
  have first: "(\<exists>e pre b. r = Inl e \<and> calls w' = calls w @ pre \<and> prefix pre request
             \<and> outbox w' = outbox w @ b \<and> prefix b sent)
          \<or> (\<exists>rest. calls w' = calls w @ request @ CRecvAll 4 # rest \<and> \<not> list_ex is_send rest
             \<and> outbox w' = outbox w @ sent)"
    unfolding rc rb using inl by blast
  have second: "(\<exists>rest. calls w' = calls w @ request @ CRecvAll 4 # rest)
                \<and> outbox w' = outbox w @ sent"
    if "connectable w" "steady w"
    using RPCConnect_reaches_response [OF that sint_int_of_length_nonneg [OF len] run]
    unfolding rc rb by blast
  have third: "\<exists>endpt. module = RPCSessionModule (ClientSession endpt)
                   \<and> endpt_name endpt = ''client:'' @ key"
    if "r = Inr module" for module
  proof -
    from that r obtain endpt where "r0 = Inr endpt" "module = RPCSessionModule (ClientSession endpt)"
      by (cases r0) auto
    moreover from returns_onlyD [OF RPCConnect_returns_name run [unfolded \<open>r0 = Inr endpt\<close>]]
    have "endpt_name endpt = ?key"
      by simp
    ultimately show ?thesis by blast
  qed
  from first second third show ?thesis by blast
qed

theorem RPCClientConnect_sends_prefixed_key_witness:
  "7 + length ''key'' < (2::nat) ^ 31
   \<and> connectable (example_world []) \<and> steady (example_world [])
   \<and> outbox (snd (RPCClientConnect example_platform ''host'' 9090 ''key'' False [] (example_world [])))
       = int_bytes example_platform 0xff271 @ int_bytes example_platform 10 @ ''client:key''"
proof -
  let ?run = "RPCClientConnect example_platform ''host'' 9090 ''key'' False [] (example_world [])"
  have run: "?run = (fst ?run, snd ?run)"
    by simp
  have k: "7 + length ''key'' < (2::nat) ^ 31"
    by simp
  have n: "int_of_length (7 + length ''key'') = 10" "kRPCMagic example_platform = 0xff271"
    "outbox (example_world []) = []"
    by (simp_all add: int_of_length_def example_platform_def example_world_def)
  note main = RPCClientConnect_sends_prefixed_key [OF k run refl refl,
      THEN conjunct2, THEN conjunct1, THEN mp,
      OF conjI [OF example_world_ok(1) example_world_ok(2)], THEN conjunct2]
  from main [unfolded n] k show ?thesis
    by simp
qed

text \<open>
  C8 as stated fails for a key of \<open>2 ^ 32 - 7\<close> bytes: \<open>client:\<close> and the key are
  \<open>2 ^ 32\<close> bytes, \<open>keylen\<close> is 0, and the request is the magic number and the zero
  length, with no byte of the key.
\<close>

theorem RPCClientConnect_long_key_counterexample:
  "outbox (snd (RPCClientConnect example_platform ''host'' 9090 (replicate 4294967289 (CHR ''a''))
       False [] (example_world [])))
     = int_bytes example_platform 0xff271 @ int_bytes example_platform 0
   \<and> outbox (snd (RPCClientConnect example_platform ''host'' 9090 (replicate 4294967289 (CHR ''a''))
       False [] (example_world [])))
     \<noteq> int_bytes example_platform 0xff271
       @ int_bytes example_platform (int_of_length (length (''client:'' @ replicate 4294967289 (CHR ''a''))))
       @ ''client:'' @ replicate 4294967289 (CHR ''a'')"
proof -
  let ?key = "replicate 4294967289 (CHR ''a'')"
  let ?run = "RPCClientConnect example_platform ''host'' 9090 ?key False [] (example_world [])"
  have "length (''client:'' @ ?key) = 4294967296"
    by (simp only: length_append length_replicate) simp
  then have z: "int_of_length (length (''client:'' @ ?key)) = 0"
    by (simp only:) (simp add: int_of_length_def)
  then have k: "0 \<le> sint (int_of_length (length (''client:'' @ ?key)))"
    by (simp only:) simp
  from RPCClientConnect_run [of example_platform "''host''" 9090 ?key False "[]" "example_world []"
      "fst ?run" "snd ?run"]
  obtain r0 where run: "RPCConnect example_platform ''host'' 9090 (''client:'' @ ?key) False []
      (example_world []) = (r0, snd ?run)"
    by (simp only: prod.collapse) blast
  from RPCConnect_reaches_response [OF example_world_ok k run]
  have "outbox (snd ?run) = outbox (example_world []) @ request_bytes example_platform (''client:'' @ ?key)"
    by (rule conjunct2)
  also have "\<dots> = int_bytes example_platform 0xff271 @ int_bytes example_platform 0"
    unfolding request_calls_zero(2) [OF z] by (simp add: example_world_def example_platform_def)
  finally have sent: "outbox (snd ?run)
      = int_bytes example_platform 0xff271 @ int_bytes example_platform 0" .
  have "length (outbox (snd ?run)) = 8"
    by (simp add: sent)
  moreover have "length (int_bytes example_platform 0xff271
       @ int_bytes example_platform (int_of_length (length (''client:'' @ ?key)))
       @ ''client:'' @ ?key) = 8 + 4294967296"
    by (simp only: length_append length_replicate length_int_bytes) simp
  ultimately have "outbox (snd ?run) \<noteq> int_bytes example_platform 0xff271
       @ int_bytes example_platform (int_of_length (length (''client:'' @ ?key)))
       @ ''client:'' @ ?key"
    by (metis add_cancel_left_right zero_neq_numeral)
  with sent show ?thesis
    by (simp only: simp_thms)
qed

text \<open>
  C9. When \<open>keylen\<close> is 0, as it is for the empty key, every run of \<open>RPCConnect\<close>
  makes two \<open>SendAll\<close> at most, of the magic number and of the zero length; there is no
  \<open>SendAll\<close> for the key and nothing of the key among the bytes sent. When the server
  answers \<open>MAGIC\<close> and announces the length 0, there are two \<open>RecvAll\<close>, of the code
  and of the length; nothing more is read (what follows stays in the stream), and the
  Endpoint has the empty remote key. It is returned when the initialisation call returns;
  when that call raises, the Endpoint is destroyed, which closes the socket.
\<close>

theorem RPCConnect_empty_keys:
  assumes "RPCConnect P url port key enable_logging init_seq w = (r, w')"
  shows "(int_of_length (length key) = 0 \<longrightarrow>
            (\<exists>e pre b. r = Inl e \<and> calls w' = calls w @ pre
               \<and> prefix pre [CSockAddr url port, CCreate, CConnect,
                              CSendAll (int_bytes P (kRPCMagic P)), CSendAll (int_bytes P 0)]
               \<and> outbox w' = outbox w @ b
               \<and> prefix b (int_bytes P (kRPCMagic P) @ int_bytes P 0))
          \<or> (\<exists>rest. calls w' = calls w @ [CSockAddr url port, CCreate, CConnect,
                              CSendAll (int_bytes P (kRPCMagic P)), CSendAll (int_bytes P 0),
                              CRecvAll 4] @ rest
               \<and> \<not> list_ex is_send rest
               \<and> outbox w' = outbox w @ int_bytes P (kRPCMagic P) @ int_bytes P 0))
       \<and> (connectable w \<and> steady w \<and> 0 \<le> sint (int_of_length (length key))
            \<and> inbox w = int_bytes P (kRPCMagic P) @ int_bytes P 0 @ unread \<longrightarrow>
            (\<exists>scr endpt W.
               endpt = \<lparr>endpt_channel = SockChannel \<lparr>sockfd = fresh_fd w\<rparr>,
                        endpt_name = key, endpt_remote_key = []\<rparr>
             \<and> W = w\<lparr>script := scr, inbox := unread, outbox := outbox w @ request_bytes P key,
                     calls := calls w @ request_calls P url port key
                       @ [CRecvAll 4, CRecvAll 4, CInitRemoteSession endpt init_seq]\<rparr>
             \<and> (r, w') = (case init_error w of
                            None \<Rightarrow> (Inr endpt, W)
                          | Some e \<Rightarrow> (Inl e, W\<lparr>closed := True, calls := calls W @ [CClose]\<rparr>))))"
proof (intro conjI impI)
  assume zero: "int_of_length (length key) = 0"
  then have "0 \<le> sint (int_of_length (length key))"
    by simp
  from RPCConnect_any_run [OF assms this]
  show "(\<exists>e pre b. r = Inl e \<and> calls w' = calls w @ pre
               \<and> prefix pre [CSockAddr url port, CCreate, CConnect,
                              CSendAll (int_bytes P (kRPCMagic P)), CSendAll (int_bytes P 0)]
               \<and> outbox w' = outbox w @ b
               \<and> prefix b (int_bytes P (kRPCMagic P) @ int_bytes P 0))
          \<or> (\<exists>rest. calls w' = calls w @ [CSockAddr url port, CCreate, CConnect,
                              CSendAll (int_bytes P (kRPCMagic P)), CSendAll (int_bytes P 0),
                              CRecvAll 4] @ rest
               \<and> \<not> list_ex is_send rest
               \<and> outbox w' = outbox w @ int_bytes P (kRPCMagic P) @ int_bytes P 0)"
    unfolding request_calls_zero [OF zero] by auto
next
  assume h: "connectable w \<and> steady w \<and> 0 \<le> sint (int_of_length (length key))
            \<and> inbox w = int_bytes P (kRPCMagic P) @ int_bytes P 0 @ unread"
  have len: "length ([] :: string) < 2 ^ 31"
    by simp
  have inb: "inbox w = int_bytes P (kRPCMagic P)
      @ int_bytes P (int_of_length (length ([] :: string))) @ [] @ unread"
    using h by (simp add: int_of_length_def)
  from h have c: "connectable w" and s: "steady w" and k: "0 \<le> sint (int_of_length (length key))"
    by simp_all
  let ?ep = "RPCEndpoint_Create (SockChannel \<lparr>sockfd = fresh_fd w\<rparr>) key []"
  from RPCConnect_accepted [OF c s k len inb, where url = url and port = port
      and enable_logging = enable_logging and init_seq = init_seq]
  obtain scr W where W: "W = w\<lparr>script := scr, inbox := unread,
        outbox := outbox w @ request_bytes P key,
        calls := calls w @ request_calls P url port key
          @ [CRecvAll 4, CRecvAll 4, CInitRemoteSession ?ep init_seq]\<rparr>"
    and run: "RPCConnect P url port key enable_logging init_seq w
      = (case init_error w of
           None \<Rightarrow> (Inr ?ep, W)
         | Some e \<Rightarrow> (Inl e, W\<lparr>closed := True, calls := calls W @ [CClose]\<rparr>))"
    by auto
  have ep: "?ep = \<lparr>endpt_channel = SockChannel \<lparr>sockfd = fresh_fd w\<rparr>,
                   endpt_name = key, endpt_remote_key = []\<rparr>"
    by (simp add: RPCEndpoint_Create_def)
  from run assms have "(r, w') = (case init_error w of
           None \<Rightarrow> (Inr ?ep, W)
         | Some e \<Rightarrow> (Inl e, W\<lparr>closed := True, calls := calls W @ [CClose]\<rparr>))"
    by simp
  with W show "\<exists>scr endpt W.
               endpt = \<lparr>endpt_channel = SockChannel \<lparr>sockfd = fresh_fd w\<rparr>,
                        endpt_name = key, endpt_remote_key = []\<rparr>
             \<and> W = w\<lparr>script := scr, inbox := unread, outbox := outbox w @ request_bytes P key,
                     calls := calls w @ request_calls P url port key
                       @ [CRecvAll 4, CRecvAll 4, CInitRemoteSession endpt init_seq]\<rparr>
             \<and> (r, w') = (case init_error w of
                            None \<Rightarrow> (Inr endpt, W)
                          | Some e \<Rightarrow> (Inl e, W\<lparr>closed := True, calls := calls W @ [CClose]\<rparr>))"
    unfolding ep by blast
qed

theorem RPCConnect_empty_keys_witness:
  "int_of_length (length ([] :: string)) = 0
   \<and> connectable (example_world (int_bytes example_platform 0xff271 @ int_bytes example_platform 0 @ ''more''))
   \<and> steady (example_world (int_bytes example_platform 0xff271 @ int_bytes example_platform 0 @ ''more''))
   \<and> fst (RPCConnect example_platform ''host'' 9090 [] False []
        (example_world (int_bytes example_platform 0xff271 @ int_bytes example_platform 0 @ ''more'')))
     = Inr \<lparr>endpt_channel = SockChannel \<lparr>sockfd = 3\<rparr>, endpt_name = [], endpt_remote_key = []\<rparr>
   \<and> inbox (snd (RPCConnect example_platform ''host'' 9090 [] False []
        (example_world (int_bytes example_platform 0xff271 @ int_bytes example_platform 0 @ ''more''))))
     = ''more''
   \<and> outbox (snd (RPCConnect example_platform ''host'' 9090 [] False []
        (example_world (int_bytes example_platform 0xff271 @ int_bytes example_platform 0 @ ''more''))))
     = int_bytes example_platform 0xff271 @ int_bytes example_platform 0"
proof -
  let ?w = "example_world (int_bytes example_platform 0xff271 @ int_bytes example_platform 0 @ ''more'')"
  let ?run = "RPCConnect example_platform ''host'' 9090 [] False [] ?w"
  have run: "?run = (fst ?run, snd ?run)"
    by simp
  have z: "int_of_length (length ([] :: string)) = 0"
    by (simp add: int_of_length_def)
  have k: "0 \<le> sint (int_of_length (length ([] :: string)))"
    by (simp add: int_of_length_def)
  have m: "kRPCMagic example_platform = 0xff271"
    by (simp add: example_platform_def)
  have inb: "inbox ?w = int_bytes example_platform (kRPCMagic example_platform)
      @ int_bytes example_platform 0 @ ''more''"
    by (simp add: example_world_def m)
  have f: "fresh_fd ?w = 3" "init_error ?w = None" "outbox ?w = []"
    by (simp_all add: example_world_def)
  note main = RPCConnect_empty_keys [OF run, THEN conjunct2, THEN mp,
      OF conjI [OF example_world_ok(1) conjI [OF example_world_ok(2) conjI [OF k inb]]]]
  from main obtain scr where r: "fst ?run
      = Inr \<lparr>endpt_channel = SockChannel \<lparr>sockfd = 3\<rparr>, endpt_name = [], endpt_remote_key = []\<rparr>"
    and w': "snd ?run = ?w\<lparr>script := scr, inbox := ''more'',
        outbox := outbox ?w @ request_bytes example_platform [],
        calls := calls ?w @ request_calls example_platform ''host'' 9090 []
          @ [CRecvAll 4, CRecvAll 4,
             CInitRemoteSession \<lparr>endpt_channel = SockChannel \<lparr>sockfd = 3\<rparr>, endpt_name = [],
                                  endpt_remote_key = []\<rparr> []]\<rparr>"
    by (auto simp: f)
  have "inbox (snd ?run) = ''more''"
    by (subst w') simp
  moreover have "outbox (snd ?run) = int_bytes example_platform 0xff271 @ int_bytes example_platform 0"
    by (subst w') (simp add: f m request_calls_zero [OF z])
  ultimately show ?thesis
    using r z by simp
qed

text \<open>
  C10. Whatever the descriptor or the pair of functions, and whatever the arguments of
  \<open>rpc.ServerLoop\<close> that lead to an entry point, the Endpoint on which the server loop
  runs has the local key \<open>SockServerLoop\<close> and the empty remote key. The loop is
  called in the state in which the entry point was called: before it there is no call of
  the socket, nothing sent and nothing received, hence no exchange of keys; after it the
  only act of the entry point is the end of the Endpoint, which closes the descriptor of
  the socket path when it is still open.
\<close>

theorem RPCServerLoop_fixed_keys:
  "RPCServerLoop_sockfd ServerLoop fd w
     = (case ServerLoop \<lparr>endpt_channel = SockChannel \<lparr>sockfd = fd\<rparr>,
                          endpt_name = ''SockServerLoop'', endpt_remote_key = []\<rparr> w of
          (r, w') \<Rightarrow> (r, if fd = - 1 \<or> closed w' then w'
                         else w'\<lparr>closed := True, calls := calls w' @ [CClose]\<rparr>))
   \<and> RPCServerLoop_callback ServerLoop fsend frecv w
     = ServerLoop \<lparr>endpt_channel = CallbackChannel fsend frecv,
                   endpt_name = ''SockServerLoop'', endpt_remote_key = []\<rparr> w
   \<and> RPCServerLoop_sockfd (\<lambda>endpt. return (endpt_name endpt, endpt_remote_key endpt)) fd w
     = (Inr (''SockServerLoop'', []),
        if fd = - 1 \<or> closed w then w else w\<lparr>closed := True, calls := calls w @ [CClose]\<rparr>)
   \<and> RPCServerLoop_callback (\<lambda>endpt. return (endpt_name endpt, endpt_remote_key endpt)) fsend frecv w
     = (Inr (''SockServerLoop'', []), w)
   \<and> fst (rpc_ServerLoop (\<lambda>endpt. throw (RemoteError (endpt_name endpt @ '':'' @ endpt_remote_key endpt)))
            (AnyInt i # args) w)
     = Inl (RemoteError ''SockServerLoop:'')
   \<and> fst (rpc_ServerLoop (\<lambda>endpt. throw (RemoteError (endpt_name endpt @ '':'' @ endpt_remote_key endpt)))
            (AnyFunction f # AnyFunction g # args) w)
     = Inl (RemoteError ''SockServerLoop:'')"
  by (simp add: RPCServerLoop_sockfd_apply RPCServerLoop_callback_apply SockChannel_dtor_socket
      split: prod.splits)

theorem RPCServerLoop_fixed_keys_witness:
  "RPCServerLoop_sockfd (\<lambda>endpt. return (endpt_name endpt, endpt_remote_key endpt)) 7
       (example_world ''peer'')
     = (Inr (''SockServerLoop'', []), (example_world ''peer'')\<lparr>closed := True, calls := [CClose]\<rparr>)
   \<and> RPCServerLoop_callback (\<lambda>endpt. return (endpt_name endpt, endpt_remote_key endpt))
       (FunctionRef 1) (FunctionRef 2) (example_world ''peer'')
     = (Inr (''SockServerLoop'', []), example_world ''peer'')
   \<and> RPCServerLoop_sockfd (\<lambda>endpt. return (endpt_name endpt, endpt_remote_key endpt)) (- 1)
       (example_world ''peer'')
     = (Inr (''SockServerLoop'', []), example_world ''peer'')"
  using RPCServerLoop_fixed_keys [where ServerLoop = "\<lambda>endpt. return ()" and fd = 7
      and fsend = "FunctionRef 1" and frecv = "FunctionRef 2" and w = "example_world ''peer''"
      and i = 0 and f = "FunctionRef 1" and g = "FunctionRef 2" and args = "[]"]
    RPCServerLoop_fixed_keys [where ServerLoop = "\<lambda>endpt. return ()" and fd = "- 1"
      and fsend = "FunctionRef 1" and frecv = "FunctionRef 2" and w = "example_world ''peer''"
      and i = 0 and f = "FunctionRef 1" and g = "FunctionRef 2" and args = "[]"]
  by (simp add: example_world_def)

end
